theory Spec2Isabelle
  imports Main "HOL-Library.AList"
begin

section \<open>JavaScript values and objects\<close>

text \<open>
  The payloads the engine handles (universe state, metadata, request parameters) are
  plain JavaScript values. A number is an integer here (fractions are not modelled), a
  string is a list of code units below 256, and an object is the list of its own
  properties in insertion order, with pairwise distinct names. JavaScript enumerates
  the names that look like array indices before the others; the program reads
  properties by name and uses only the length of a serialisation, neither of which
  depends on the order. A property holding \<^verbatim>\<open>undefined\<close> is the same as an absent
  property, so reading a property gives an \<open>option\<close>.
\<close>

datatype jsval =
    JNull
  | JBool bool
  | JNum int
  | JStr string
  | JArr "jsval list"
  | JObj "(string \<times> jsval) list"

type_synonym obj = "(string \<times> jsval) list"

text \<open>Reading \<^verbatim>\<open>o.k\<close>, and the conversion to boolean behind \<^verbatim>\<open>!v\<close>, \<^verbatim>\<open>v || d\<close> and \<^verbatim>\<open>if (v)\<close>.\<close>

definition get_prop :: "obj \<Rightarrow> string \<Rightarrow> jsval option" where
  "get_prop ob k = map_of ob k"

fun truthy :: "jsval \<Rightarrow> bool" where
  "truthy JNull = False"
| "truthy (JBool b) = b"
| "truthy (JNum n) = (n \<noteq> 0)"
| "truthy (JStr s) = (s \<noteq> [])"
| "truthy (JArr xs) = True"
| "truthy (JObj kvs) = True"

text \<open>\<^verbatim>\<open>v || d\<close> where \<open>v\<close> may be \<^verbatim>\<open>undefined\<close> (\<open>None\<close>).\<close>

fun js_or :: "jsval option \<Rightarrow> jsval \<Rightarrow> jsval" where
  "js_or None d = d"
| "js_or (Some v) d = (if truthy v then v else d)"

text \<open>Decimal numerals, for array indices, numbers and time stamps inside strings.\<close>

definition digit_char :: "nat \<Rightarrow> char" where
  "digit_char d = ''0123456789'' ! d"

fun digits :: "nat \<Rightarrow> string" where
  "digits n = (if n < 10 then [digit_char n] else digits (n div 10) @ [digit_char (n mod 10)])"

declare digits.simps [simp del]

definition show_int :: "int \<Rightarrow> string" where
  "show_int i = (if i < 0 then CHR ''-'' # digits (nat (- i)) else digits (nat i))"

text \<open>
  The own enumerable properties that an object spread \<^verbatim>\<open>{...v}\<close> copies: the properties
  of an object, the indexed elements of an array, the indexed characters of a string,
  and nothing for \<^verbatim>\<open>null\<close>, a boolean or a number.
\<close>

fun props_of :: "jsval \<Rightarrow> obj" where
  "props_of (JObj kvs) = kvs"
| "props_of (JArr xs) = zip (map digits [0..<length xs]) xs"
| "props_of (JStr s) = zip (map digits [0..<length s]) (map (\<lambda>c. JStr [c]) s)"
| "props_of JNull = []"
| "props_of (JBool b) = []"
| "props_of (JNum n) = []"

text \<open>
  \<^verbatim>\<open>{...a, ...b}\<close>: the properties of \<open>b\<close> are defined on a copy of \<open>a\<close> from left to right;
  a name that \<open>a\<close> already has keeps its position and takes the new value, a new name is
  appended. An object literal \<^verbatim>\<open>{...a, k1: v1, k2: v2}\<close> is
  \<open>spread a [(k1, v1), (k2, v2)]\<close>.
\<close>

definition spread :: "obj \<Rightarrow> obj \<Rightarrow> obj" where
  "spread a b = fold (\<lambda>(k, v). AList.update k v) b a"

text \<open>The conversion to a string inside a template literal \<^verbatim>\<open>`... ${v} ...`\<close>.\<close>

fun join :: "string \<Rightarrow> string list \<Rightarrow> string" where
  "join sep [] = []"
| "join sep [x] = x"
| "join sep (x # y # ys) = x @ sep @ join sep (y # ys)"

fun to_string :: "jsval \<Rightarrow> string" where
  "to_string JNull = ''null''"
| "to_string (JBool b) = (if b then ''true'' else ''false'')"
| "to_string (JNum n) = show_int n"
| "to_string (JStr s) = s"
| "to_string (JArr xs) = join '','' (map (\<lambda>x. if x = JNull then [] else to_string x) xs)"
| "to_string (JObj kvs) = ''[object Object]''"

subsection \<open>JSON.stringify\<close>

text \<open>
  The serialisation whose length is a universe's \<^verbatim>\<open>stateSize\<close>. A string is quoted,
  with the quote, the backslash and the control characters escaped as JSON.stringify
  does; an object prints its properties in the order of the list.
\<close>

definition hex_digit :: "nat \<Rightarrow> char" where
  "hex_digit d = ''0123456789abcdef'' ! d"

definition escape_char :: "char \<Rightarrow> string" where
  "escape_char c =
     (if c = CHR 0x22 then [CHR 0x5C, CHR 0x22]
      else if c = CHR 0x5C then [CHR 0x5C, CHR 0x5C]
      else if c = CHR 0x08 then [CHR 0x5C, CHR ''b'']
      else if c = CHR 0x0C then [CHR 0x5C, CHR ''f'']
      else if c = CHR 0x0A then [CHR 0x5C, CHR ''n'']
      else if c = CHR 0x0D then [CHR 0x5C, CHR ''r'']
      else if c = CHR 0x09 then [CHR 0x5C, CHR ''t'']
      else if (of_char c :: nat) < 32
        then [CHR 0x5C, CHR ''u'', CHR ''0'', CHR ''0'',
              hex_digit (of_char c div 16), hex_digit (of_char c mod 16)]
      else [c])"

definition quote :: "string \<Rightarrow> string" where
  "quote s = CHR 0x22 # concat (map escape_char s) @ [CHR 0x22]"

fun stringify :: "jsval \<Rightarrow> string" where
  "stringify JNull = ''null''"
| "stringify (JBool b) = (if b then ''true'' else ''false'')"
| "stringify (JNum n) = show_int n"
| "stringify (JStr s) = quote s"
| "stringify (JArr xs) = ''['' @ join '','' (map stringify xs) @ '']''"
| "stringify (JObj kvs) =
     ''{'' @ join '','' (map (\<lambda>(k, v). quote k @ '':'' @ stringify v) kvs) @ ''}''"

section \<open>Data model\<close>

text \<open>
  A snapshot object and a \<^verbatim>\<open>HeliosUniverse\<close> object, field by field. \<open>uid\<close> is the
  universe's \<^verbatim>\<open>id\<close>. \<open>parentId\<close> is \<open>JNull\<close> or whatever value the creator passed.
  No method of the repository writes a property of an existing state object: the
  constructor, \<^verbatim>\<open>createSnapshot\<close> and \<^verbatim>\<open>updateState\<close> each build a new object by spread, so
  a state object never changes once built and is held by value.
\<close>

record snapshot =
  snapshot_id :: string
  snapshot_universeId :: string
  snapshot_state :: obj
  snapshot_metadata :: obj

record universe =
  uid :: string
  parentId :: jsval
  state :: obj
  metadata :: obj
  enableCOW :: bool
  enableVST :: bool
  snapshots :: "snapshot list"
  children :: "string list"

text \<open>The argument of the \<^verbatim>\<open>HeliosUniverse\<close> constructor.\<close>

record universe_config =
  cfg_id :: string
  cfg_parentId :: jsval
  cfg_initialState :: jsval
  cfg_metadata :: jsval
  cfg_type :: "jsval option"
  cfg_enableCOW :: bool
  cfg_enableVST :: bool

text \<open>What \<^verbatim>\<open>updateState\<close> returns.\<close>

record update_result =
  success :: bool
  sizeChange :: int
  cowTriggered :: bool

text \<open>
  The engine's counters (\<^verbatim>\<open>this.metrics\<close>), the manager's (\<^verbatim>\<open>this.statistics\<close>) and its
  configuration. Timings that are floating-point averages are left out.
\<close>

record engine_metrics =
  totalUniverses :: int
  activeUniverses :: int
  totalOperations :: int
  snapshotCount :: int

record manager_statistics =
  totalCreated :: int
  totalDestroyed :: int
  operationsCompleted :: int
  batchOperationsCompleted :: int
  peakConcurrentUniverses :: int

record manager_config =
  maxConcurrentOperations :: int
  batchSize :: int
  autoCleanup :: bool
  performanceTracking :: bool
  maxAge :: "int option"

text \<open>An entry of a universe's operation log, and an entry of the manager's map.\<close>

record operation_record =
  op_id :: string
  op_operation :: string
  op_params :: obj
  op_result :: obj
  op_timestamp :: int

record universeData =
  ud_universe :: nat
  ud_createdAt :: int
  ud_batchId :: "string option"
  ud_parentId :: "string option"
  ud_branchType :: "jsval option"
  operations :: "operation_record list"

text \<open>
  The whole program state. \<^verbatim>\<open>HeliosUniverse\<close> objects are shared by reference between the
  engine's map, the manager's map and the callers, and are mutated in place, so they
  live in a heap indexed by references; \<open>next_ref\<close> is the first unused one. The two
  \<^verbatim>\<open>Map\<close>s keep their entries in insertion order. \<open>uuid_count\<close> counts the calls of
  \<^verbatim>\<open>uuidv4()\<close> and \<open>clock\<close> is what \<^verbatim>\<open>Date.now()\<close> returns. \<open>stack_limit\<close> is the depth of
  recursion the JavaScript engine allows before it throws a \<^verbatim>\<open>RangeError\<close>. Events sent
  with \<^verbatim>\<open>emit\<close> and execution times are not part of the state.
\<close>

record world =
  heap :: "nat \<Rightarrow> universe"
  next_ref :: nat
  uuid_count :: nat
  clock :: int
  stack_limit :: nat
  engine_universes :: "(string \<times> nat) list"
  metrics :: engine_metrics
  maxUniverses :: int
  manager_universes :: "(string \<times> universeData) list"
  statistics :: manager_statistics
  config :: manager_config

datatype error = Error string

text \<open>
  The results of the manager's operations. Each carries the \<^verbatim>\<open>metadata\<close> object of the
  result as its last argument. Of the analysis, the sections \<^verbatim>\<open>basic\<close>,
  \<^verbatim>\<open>relationships\<close> and \<^verbatim>\<open>health.integrity\<close> are kept; the performance ratings are
  floating-point numbers and are left out.
\<close>

record integrity =
  healthy :: bool
  issues :: "string list"

record analysis =
  basic_id :: string
  basic_stateSize :: "jsval option"
  basic_snapshotCount :: nat
  basic_childrenCount :: nat
  rel_parentId :: jsval
  rel_children :: "string list"
  rel_siblings :: "string list"
  rel_descendants :: nat
  health_integrity :: integrity

datatype operation_result =
    SnapshotResult snapshot obj
  | CloneResult nat obj
  | UpdateResult update_result obj
  | BranchResult nat obj
  | MergeResult update_result jsval jsval obj
  | AnalysisResult analysis obj

fun result_metadata :: "operation_result \<Rightarrow> obj" where
  "result_metadata (SnapshotResult s m) = m"
| "result_metadata (CloneResult c m) = m"
| "result_metadata (UpdateResult r m) = m"
| "result_metadata (BranchResult b m) = m"
| "result_metadata (MergeResult r ids strategy m) = m"
| "result_metadata (AnalysisResult a m) = m"

text \<open>What \<^verbatim>\<open>performOperation\<close> returns, and a request of a batch.\<close>

record operation_outcome =
  out_operationId :: string
  out_operation :: string
  out_result :: operation_result
  out_universeId :: string
  out_timestamp :: int
  out_operationIndex :: nat

record batch_operation =
  bo_universeId :: string
  bo_operation :: string
  bo_params :: obj

text \<open>
  An element of the \<^verbatim>\<open>results\<close> array of a batch: the outcome of the operation, or the
  object \<^verbatim>\<open>{error, index}\<close> that stands for an operation that threw.
\<close>

datatype batch_item = Completed operation_outcome | Failed string nat

record batch_result =
  br_batchId :: string
  br_operations :: nat
  br_results :: "batch_item list"

text \<open>
  \<^verbatim>\<open>uuidv4()\<close> returns an identifier that it has never returned before; which one is
  immaterial, so the \<open>n\<close>-th call returns the text of \<open>n\<close>.
\<close>

definition uuid_text :: "nat \<Rightarrow> string" where
  "uuid_text n = ''uuid-'' @ digits n"

definition uuidv4 :: "world \<Rightarrow> string \<times> world" where
  "uuidv4 w = (uuid_text (uuid_count w), w\<lparr>uuid_count := Suc (uuid_count w)\<rparr>)"

text \<open>Placing a newly constructed object in the heap.\<close>

definition alloc :: "universe \<Rightarrow> world \<Rightarrow> nat \<times> world" where
  "alloc u w = (next_ref w, w\<lparr>heap := (heap w)(next_ref w := u), next_ref := Suc (next_ref w)\<rparr>)"

text \<open>\<^verbatim>\<open>...v\<close> inside an object literal where \<open>v\<close> may be \<^verbatim>\<open>undefined\<close>.\<close>

fun props_of_opt :: "jsval option \<Rightarrow> obj" where
  "props_of_opt None = []"
| "props_of_opt (Some v) = props_of v"

section \<open>HeliosUniverse\<close>

definition stateSize_of :: "obj \<Rightarrow> jsval" where
  "stateSize_of st = JNum (int (length (stringify (JObj st))))"

text \<open>The constructor; \<open>now\<close> is the value of \<^verbatim>\<open>Date.now()\<close>.\<close>

definition HeliosUniverse :: "int \<Rightarrow> universe_config \<Rightarrow> universe" where
  "HeliosUniverse now cfg =
     (let st = spread [] (props_of (cfg_initialState cfg)) in
      \<lparr>uid = cfg_id cfg,
       parentId = cfg_parentId cfg,
       state = st,
       metadata = spread (spread [] (props_of (cfg_metadata cfg)))
         [(''createdAt'', JNum now),
          (''type'', js_or (cfg_type cfg) (JStr ''default'')),
          (''stateSize'', stateSize_of st)],
       enableCOW = cfg_enableCOW cfg,
       enableVST = cfg_enableVST cfg,
       snapshots = [],
       children = []\<rparr>)"

text \<open>\<^verbatim>\<open>clone(config)\<close> on the object at reference \<open>this\<close>; returns the reference of the clone.\<close>

definition clone :: "nat \<Rightarrow> obj \<Rightarrow> world \<Rightarrow> nat \<times> world" where
  "clone this cfg w =
     (let (new_id, w1) = uuidv4 w;
          me = heap w1 this;
          cloneConfig =
            \<lparr>cfg_id = new_id,
             cfg_parentId = JStr (uid me),
             cfg_initialState = JObj (state me),
             cfg_metadata = JObj
               (spread (spread (spread [] (metadata me)) (props_of_opt (get_prop cfg ''metadata'')))
                  [(''clonedFrom'', JStr (uid me)), (''clonedAt'', JNum (clock w1))]),
             cfg_type = None,
             cfg_enableCOW = enableCOW me,
             cfg_enableVST = enableVST me\<rparr>;
          (c, w2) = alloc (HeliosUniverse (clock w1) cloneConfig) w1;
          parent = heap w2 this;
          w3 = w2\<lparr>heap := (heap w2)(this := parent\<lparr>children := children parent @ [uid (heap w2 c)]\<rparr>)\<rparr>
      in (c, w3))"

text \<open>\<^verbatim>\<open>createSnapshot(metadata)\<close>.\<close>

definition createSnapshot :: "nat \<Rightarrow> obj \<Rightarrow> world \<Rightarrow> snapshot \<times> world" where
  "createSnapshot this md w =
     (let (new_id, w1) = uuidv4 w;
          me = heap w1 this;
          snap =
            \<lparr>snapshot_id = new_id,
             snapshot_universeId = uid me,
             snapshot_state = spread [] (state me),
             snapshot_metadata = spread (spread [] md)
               [(''createdAt'', JNum (clock w1)), (''stateSize'', stateSize_of (state me))]\<rparr>;
          w2 = w1\<lparr>heap := (heap w1)(this := me\<lparr>snapshots := snapshots me @ [snap]\<rparr>)\<rparr>
      in (snap, w2))"

text \<open>\<^verbatim>\<open>updateState(updates)\<close>.\<close>

definition updateState :: "nat \<Rightarrow> jsval \<Rightarrow> world \<Rightarrow> update_result \<times> world" where
  "updateState this updates w =
     (let me = heap w this;
          oldSize = int (length (stringify (JObj (state me))));
          st = spread (spread [] (state me)) (props_of updates);
          newSize = int (length (stringify (JObj st)));
          md = AList.update ''lastModified'' (JNum (clock w))
                 (AList.update ''stateSize'' (JNum newSize) (metadata me));
          w1 = w\<lparr>heap := (heap w)(this := me\<lparr>state := st, metadata := md\<rparr>)\<rparr>
      in (\<lparr>success = True,
           sizeChange = newSize - oldSize,
           cowTriggered = (parentId me \<noteq> JNull)\<rparr>, w1))"

section \<open>HeliosEngine\<close>

text \<open>
  The constructor: \<^verbatim>\<open>maxUniverses: config.maxUniverses || 10000\<close>, then \<^verbatim>\<open>...config\<close> over it,
  so a \<^verbatim>\<open>maxUniverses\<close> that the caller gives wins even when it is 0; a manager is
  constructed over the engine with its fixed configuration. No universe exists yet; the
  heap cells hold an empty universe until an object is placed in them.
\<close>

definition new_world :: "int option \<Rightarrow> nat \<Rightarrow> world" where
  "new_world mx depth =
     \<lparr>heap = (\<lambda>_. HeliosUniverse 0
         \<lparr>cfg_id = [], cfg_parentId = JNull, cfg_initialState = JObj [], cfg_metadata = JObj [],
          cfg_type = None, cfg_enableCOW = True, cfg_enableVST = True\<rparr>),
      next_ref = 0,
      uuid_count = 0,
      clock = 0,
      stack_limit = depth,
      engine_universes = [],
      metrics = \<lparr>totalUniverses = 0, activeUniverses = 0, totalOperations = 0, snapshotCount = 0\<rparr>,
      maxUniverses = (case mx of None \<Rightarrow> 10000 | Some m \<Rightarrow> m),
      manager_universes = [],
      statistics = \<lparr>totalCreated = 0, totalDestroyed = 0, operationsCompleted = 0,
                    batchOperationsCompleted = 0, peakConcurrentUniverses = 0\<rparr>,
      config = \<lparr>maxConcurrentOperations = 100, batchSize = 50, autoCleanup = True,
                performanceTracking = True, maxAge = None\<rparr>\<rparr>"

text \<open>\<^verbatim>\<open>updateAverageOperationTime\<close>: the operation counter; the average is a float.\<close>

definition updateAverageOperationTime :: "world \<Rightarrow> world" where
  "updateAverageOperationTime w =
     w\<lparr>metrics := (metrics w)\<lparr>totalOperations := totalOperations (metrics w) + 1\<rparr>\<rparr>"

text \<open>\<^verbatim>\<open>createUniverse(config)\<close>: no branch of it throws.\<close>

definition engine_createUniverse :: "obj \<Rightarrow> world \<Rightarrow> nat \<times> world" where
  "engine_createUniverse cfg w =
     (let (new_id, w1) = uuidv4 w;
          (u, w2) = alloc (HeliosUniverse (clock w1)
            \<lparr>cfg_id = new_id,
             cfg_parentId = js_or (get_prop cfg ''parentId'') JNull,
             cfg_initialState = js_or (get_prop cfg ''initialState'') (JObj []),
             cfg_metadata = js_or (get_prop cfg ''metadata'') (JObj []),
             cfg_type = None,
             cfg_enableCOW = (get_prop cfg ''enableCOW'' \<noteq> Some (JBool False)),
             cfg_enableVST = (get_prop cfg ''enableVST'' \<noteq> Some (JBool False))\<rparr>) w1;
          w3 = w2\<lparr>engine_universes := AList.update (uid (heap w2 u)) u (engine_universes w2),
                 metrics := (metrics w2)\<lparr>totalUniverses := totalUniverses (metrics w2) + 1,
                                         activeUniverses := activeUniverses (metrics w2) + 1\<rparr>\<rparr>
      in (u, updateAverageOperationTime w3))"

definition engine_getUniverse :: "string \<Rightarrow> world \<Rightarrow> nat option" where
  "engine_getUniverse i w = map_of (engine_universes w) i"

definition engine_cloneUniverse :: "string \<Rightarrow> obj \<Rightarrow> world \<Rightarrow> error + nat \<times> world" where
  "engine_cloneUniverse sourceId cfg w =
     (case map_of (engine_universes w) sourceId of
        None \<Rightarrow> Inl (Error (''Universe '' @ sourceId @ '' not found''))
      | Some sourceUniverse \<Rightarrow>
          (let (c, w1) = clone sourceUniverse cfg w;
               w2 = w1\<lparr>engine_universes := AList.update (uid (heap w1 c)) c (engine_universes w1),
                      metrics := (metrics w1)\<lparr>totalUniverses := totalUniverses (metrics w1) + 1,
                                              activeUniverses := activeUniverses (metrics w1) + 1\<rparr>\<rparr>
           in Inr (c, updateAverageOperationTime w2)))"

section \<open>UniverseManager\<close>

subsection \<open>createUniverses\<close>

text \<open>The configuration object built for the universe with index \<open>i + j\<close>.\<close>

definition universeConfig :: "obj \<Rightarrow> string \<Rightarrow> int \<Rightarrow> int \<Rightarrow> obj" where
  "universeConfig cfg batchId index now =
     spread (spread [] cfg)
       [(''batchId'', JStr batchId),
        (''index'', JNum index),
        (''metadata'', JObj
           (spread (spread [] (props_of_opt (get_prop cfg ''metadata'')))
              [(''batchId'', JStr batchId),
               (''creationIndex'', JNum index),
               (''createdAt'', JNum now)]))]"

text \<open>
  The inner loop over \<open>j\<close>. \<^verbatim>\<open>createUniverse\<close> has no \<^verbatim>\<open>await\<close> in its body, so each call has
  created its universe when it returns its promise, and the promises of a chunk resolve
  to the universes in the order of the calls.
\<close>

function createUniverses_inner ::
  "obj \<Rightarrow> string \<Rightarrow> int \<Rightarrow> int \<Rightarrow> int \<Rightarrow> nat list \<Rightarrow> world \<Rightarrow> nat list \<times> world" where
  "createUniverses_inner cfg batchId i currentBatchSize j batchPromises w =
     (if j < currentBatchSize then
        (let (u, w1) = engine_createUniverse (universeConfig cfg batchId (i + j) (clock w)) w
         in createUniverses_inner cfg batchId i currentBatchSize (j + 1) (batchPromises @ [u]) w1)
      else (batchPromises, w))"
  by pat_completeness auto
termination
  by (relation "measure (\<lambda>(cfg, batchId, i, currentBatchSize, j, batchPromises, w).
        nat (currentBatchSize - j))") auto

declare createUniverses_inner.simps [simp del]

text \<open>\<^verbatim>\<open>this.universes.set(universe.id, {universe, createdAt, batchId, operations: []})\<close>.\<close>

definition track_universe :: "string \<Rightarrow> nat \<Rightarrow> world \<Rightarrow> world" where
  "track_universe batchId u w =
     w\<lparr>manager_universes :=
         AList.update (uid (heap w u))
           \<lparr>ud_universe = u, ud_createdAt = clock w, ud_batchId = Some batchId,
            ud_parentId = None, ud_branchType = None, operations = []\<rparr>
           (manager_universes w)\<rparr>"

text \<open>
  The outer loop over \<open>i\<close>, in steps of \<open>bsz\<close>. With a step that is not positive the loop
  never ends, which is the value \<open>None\<close>.
\<close>

partial_function (option) createUniverses_outer ::
  "obj \<Rightarrow> string \<Rightarrow> int \<Rightarrow> int \<Rightarrow> int \<Rightarrow> nat list \<Rightarrow> world \<Rightarrow> (nat list \<times> world) option" where
  "createUniverses_outer cfg batchId count bsz i universes w =
     (if i < count then
        (let currentBatchSize = min bsz (count - i);
             bw = createUniverses_inner cfg batchId i currentBatchSize 0 [] w;
             w2 = fold (track_universe batchId) (fst bw) (snd bw)
         in createUniverses_outer cfg batchId count bsz (i + bsz) (universes @ fst bw) w2)
      else Some (universes, w))"

declare createUniverses_outer.simps [code]

text \<open>
  \<^verbatim>\<open>createUniverses(count, config)\<close>. The batch identifier is drawn before the count is
  checked. The result is what the call returns or throws, with the state it leaves.
\<close>

definition createUniverses :: "int \<Rightarrow> obj \<Rightarrow> world \<Rightarrow> ((error + nat list) \<times> world) option" where
  "createUniverses count cfg w =
     (let (batchId, w0) = uuidv4 w in
      if count \<le> 0 \<or> count > 10000
      then Some (Inl (Error ''Universe count must be between 1 and 10000''), w0)
      else
        (case createUniverses_outer cfg batchId count (min (batchSize (config w0)) count) 0 [] w0 of
           None \<Rightarrow> None
         | Some (universes, w1) \<Rightarrow>
             Some (Inr universes,
               w1\<lparr>statistics := (statistics w1)
                 \<lparr>totalCreated := totalCreated (statistics w1) + count,
                  peakConcurrentUniverses :=
                    max (peakConcurrentUniverses (statistics w1))
                        (int (length (manager_universes w1)))\<rparr>\<rparr>)))"

definition manager_getUniverse :: "string \<Rightarrow> world \<Rightarrow> nat option" where
  "manager_getUniverse i w = map_option ud_universe (map_of (manager_universes w) i)"

text \<open>\<^verbatim>\<open>this.universes.get(k)\<close> for a key that may be any value: only a string is a key.\<close>

fun manager_get :: "jsval \<Rightarrow> world \<Rightarrow> universeData option" where
  "manager_get (JStr s) w = map_of (manager_universes w) s"
| "manager_get v w = None"

subsection \<open>The lineage queries\<close>

definition findSiblings :: "nat \<Rightarrow> world \<Rightarrow> string list" where
  "findSiblings universe w =
     (if \<not> truthy (parentId (heap w universe)) then []
      else map fst (filter
        (\<lambda>(i, d). parentId (heap w (ud_universe d)) = parentId (heap w universe)
                  \<and> i \<noteq> uid (heap w universe))
        (manager_universes w)))"

text \<open>
  \<^verbatim>\<open>countDescendants(universe)\<close>. The first argument is the number of nested calls that
  the stack still allows; \<open>None\<close> is the \<^verbatim>\<open>RangeError\<close> of a recursion that goes deeper.
\<close>

fun countDescendants :: "nat \<Rightarrow> world \<Rightarrow> nat \<Rightarrow> nat option" where
  "countDescendants 0 w universe = None"
| "countDescendants (Suc depth) w universe =
     fold (\<lambda>childId count.
            case count of
              None \<Rightarrow> None
            | Some n \<Rightarrow>
                (case map_of (manager_universes w) childId of
                   None \<Rightarrow> Some n
                 | Some childData \<Rightarrow>
                     (case countDescendants depth w (ud_universe childData) of
                        None \<Rightarrow> None
                      | Some k \<Rightarrow> Some (n + k))))
       (children (heap w universe))
       (Some (length (children (heap w universe))))"

definition checkIntegrity :: "nat \<Rightarrow> world \<Rightarrow> integrity" where
  "checkIntegrity universe w =
     (let u = heap w universe;
          issues0 =
            (if truthy (parentId u)
             then (case manager_get (parentId u) w of
                     None \<Rightarrow> [''Parent universe not found'']
                   | Some parent \<Rightarrow> [])
             else []);
          issues1 =
            fold (\<lambda>childId acc.
                   if map_of (manager_universes w) childId = None
                   then acc @ [''Child universe '' @ childId @ '' not found'']
                   else acc)
              (children u) issues0
      in \<lparr>healthy = (length issues1 = 0), issues = issues1\<rparr>)"

subsection \<open>The operations of performOperation\<close>

text \<open>Each returns the result object, or the error it throws, and the state it leaves.\<close>

definition manager_createSnapshot ::
  "nat \<Rightarrow> obj \<Rightarrow> world \<Rightarrow> (error + operation_result) \<times> world" where
  "manager_createSnapshot universe params w =
     (let (snap, w1) = createSnapshot universe
            (spread
               [(''name'', js_or (get_prop params ''name'') (JStr (''Snapshot-'' @ show_int (clock w)))),
                (''description'', js_or (get_prop params ''description'') (JStr ''Auto-generated snapshot'')),
                (''tags'', js_or (get_prop params ''tags'') (JArr []))]
               (props_of_opt (get_prop params ''metadata''))) w
      in (Inr (SnapshotResult snap
            [(''type'', JStr ''snapshot''),
             (''universeId'', JStr (uid (heap w1 universe))),
             (''snapshotId'', JStr (snapshot_id snap)),
             (''operation'', JStr ''create_snapshot'')]), w1))"

definition manager_cloneUniverse ::
  "nat \<Rightarrow> obj \<Rightarrow> world \<Rightarrow> (error + operation_result) \<times> world" where
  "manager_cloneUniverse universe params w =
     (let (c, w1) = clone universe
            (spread
               [(''name'', js_or (get_prop params ''name'') (JStr (''Clone-'' @ show_int (clock w)))),
                (''copyState'', JBool (get_prop params ''copyState'' \<noteq> Some (JBool False))),
                (''inheritMetadata'', JBool (get_prop params ''inheritMetadata'' \<noteq> Some (JBool False)))]
               (props_of_opt (get_prop params ''metadata''))) w;
          w2 = w1\<lparr>manager_universes :=
                   AList.update (uid (heap w1 c))
                     \<lparr>ud_universe = c, ud_createdAt = clock w1, ud_batchId = None,
                      ud_parentId = Some (uid (heap w1 universe)), ud_branchType = None,
                      operations = []\<rparr>
                     (manager_universes w1),
                 statistics := (statistics w1)\<lparr>totalCreated := totalCreated (statistics w1) + 1\<rparr>\<rparr>
      in (Inr (CloneResult c
            [(''type'', JStr ''clone''),
             (''sourceId'', JStr (uid (heap w2 universe))),
             (''cloneId'', JStr (uid (heap w2 c))),
             (''operation'', JStr ''clone_universe'')]), w2))"

text \<open>\<^verbatim>\<open>typeof v === 'object'\<close>.\<close>

fun is_object :: "jsval \<Rightarrow> bool" where
  "is_object JNull = True"
| "is_object (JArr xs) = True"
| "is_object (JObj kvs) = True"
| "is_object v = False"

definition updateUniverse ::
  "nat \<Rightarrow> obj \<Rightarrow> world \<Rightarrow> (error + operation_result) \<times> world" where
  "updateUniverse universe params w =
     (case get_prop params ''updates'' of
        None \<Rightarrow> (Inl (Error ''Updates parameter must be an object''), w)
      | Some updates \<Rightarrow>
          if \<not> truthy updates \<or> \<not> is_object updates
          then (Inl (Error ''Updates parameter must be an object''), w)
          else
            (let (updateResult, w1) = updateState universe updates w
             in (Inr (UpdateResult updateResult
                   [(''type'', JStr ''update''),
                    (''universeId'', JStr (uid (heap w1 universe))),
                    (''updatedFields'', JArr (map (JStr \<circ> fst) (spread [] (props_of updates)))),
                    (''operation'', JStr ''update_universe'')]), w1)))"

definition branchUniverse ::
  "nat \<Rightarrow> obj \<Rightarrow> world \<Rightarrow> (error + operation_result) \<times> world" where
  "branchUniverse universe params w =
     (let (b, w1) = clone universe
            (spread
               [(''name'', js_or (get_prop params ''name'') (JStr (''Branch-'' @ show_int (clock w)))),
                (''branchType'', js_or (get_prop params ''branchType'') (JStr ''feature'')),
                (''divergencePoint'', JNum (clock w))]
               (props_of_opt (get_prop params ''metadata''))) w;
          w2 = (case get_prop params ''modifications'' of
                  None \<Rightarrow> w1
                | Some modifications \<Rightarrow>
                    if truthy modifications then snd (updateState b modifications w1) else w1);
          w3 = w2\<lparr>manager_universes :=
                   AList.update (uid (heap w2 b))
                     \<lparr>ud_universe = b, ud_createdAt = clock w2, ud_batchId = None,
                      ud_parentId = Some (uid (heap w2 universe)),
                      ud_branchType = get_prop params ''branchType'',
                      operations = []\<rparr>
                     (manager_universes w2),
                 statistics := (statistics w2)\<lparr>totalCreated := totalCreated (statistics w2) + 1\<rparr>\<rparr>
      in (Inr (BranchResult b
            ([(''type'', JStr ''branch''),
              (''sourceId'', JStr (uid (heap w3 universe))),
              (''branchId'', JStr (uid (heap w3 b)))]
             @ (case get_prop params ''branchType'' of None \<Rightarrow> [] | Some t \<Rightarrow> [(''branchType'', t)])
             @ [(''operation'', JStr ''branch_universe'')])), w3))"

text \<open>\<^verbatim>\<open>sourceIds.map(id => ...)\<close>: stops at the first identifier that is not in the map.\<close>

fun lookup_sources :: "jsval list \<Rightarrow> world \<Rightarrow> error + nat list" where
  "lookup_sources [] w = Inr []"
| "lookup_sources (i # ids) w =
     (case manager_get i w of
        None \<Rightarrow> Inl (Error (''Source universe '' @ to_string i @ '' not found''))
      | Some universeData \<Rightarrow>
          (case lookup_sources ids w of
             Inl e \<Rightarrow> Inl e
           | Inr us \<Rightarrow> Inr (ud_universe universeData # us)))"

text \<open>
  \<^verbatim>\<open>sourceUniverses.reduce((merged, source) => ({...merged, ...source.state}),
  {...targetUniverse.state})\<close>.
\<close>

definition mergedState :: "nat \<Rightarrow> nat list \<Rightarrow> world \<Rightarrow> obj" where
  "mergedState targetUniverse sourceUniverses w =
     fold (\<lambda>source merged. spread (spread [] merged) (state (heap w source)))
       sourceUniverses (spread [] (state (heap w targetUniverse)))"

definition mergeUniverse ::
  "nat \<Rightarrow> obj \<Rightarrow> world \<Rightarrow> (error + operation_result) \<times> world" where
  "mergeUniverse targetUniverse params w =
     (let sourceIds = (case get_prop params ''sourceIds'' of None \<Rightarrow> JArr [] | Some v \<Rightarrow> v);
          mergeStrategy = (case get_prop params ''mergeStrategy'' of None \<Rightarrow> JStr ''replace'' | Some v \<Rightarrow> v)
      in case sourceIds of
           JArr ids \<Rightarrow>
             if length ids = 0
             then (Inl (Error ''Source universe IDs must be provided for merge operation''), w)
             else
               (case lookup_sources ids w of
                  Inl e \<Rightarrow> (Inl e, w)
                | Inr sourceUniverses \<Rightarrow>
                    (let (updateResult, w1) =
                           updateState targetUniverse
                             (JObj (mergedState targetUniverse sourceUniverses w)) w
                     in (Inr (MergeResult updateResult sourceIds mergeStrategy
                           [(''type'', JStr ''merge''),
                            (''targetId'', JStr (uid (heap w1 targetUniverse))),
                            (''sourceIds'', sourceIds),
                            (''mergeStrategy'', mergeStrategy),
                            (''operation'', JStr ''merge_universes'')]), w1)))
         | _ \<Rightarrow> (Inl (Error ''Source universe IDs must be provided for merge operation''), w))"

definition analyzeUniverse ::
  "nat \<Rightarrow> obj \<Rightarrow> world \<Rightarrow> (error + operation_result) \<times> world" where
  "analyzeUniverse universe params w =
     (case countDescendants (stack_limit w) w universe of
        None \<Rightarrow> (Inl (Error ''Maximum call stack size exceeded''), w)
      | Some descendants \<Rightarrow>
          (let u = heap w universe in
           (Inr (AnalysisResult
              \<lparr>basic_id = uid u,
               basic_stateSize = get_prop (metadata u) ''stateSize'',
               basic_snapshotCount = length (snapshots u),
               basic_childrenCount = length (children u),
               rel_parentId = parentId u,
               rel_children = children u,
               rel_siblings = findSiblings universe w,
               rel_descendants = descendants,
               health_integrity = checkIntegrity universe w\<rparr>
              [(''type'', JStr ''analysis''),
               (''universeId'', JStr (uid u)),
               (''analysisType'', js_or (get_prop params ''type'') (JStr ''comprehensive'')),
               (''operation'', JStr ''analyze_universe'')]), w)))"

subsection \<open>performOperation\<close>

text \<open>The \<^verbatim>\<open>switch\<close> over the operation name.\<close>

definition dispatch :: "string \<Rightarrow> nat \<Rightarrow> obj \<Rightarrow> world \<Rightarrow> (error + operation_result) \<times> world" where
  "dispatch operation universe params w =
     (if operation = ''snapshot'' then manager_createSnapshot universe params w
      else if operation = ''clone'' then manager_cloneUniverse universe params w
      else if operation = ''update'' then updateUniverse universe params w
      else if operation = ''branch'' then branchUniverse universe params w
      else if operation = ''merge'' then mergeUniverse universe params w
      else if operation = ''analyze'' then analyzeUniverse universe params w
      else (Inl (Error (''Unknown operation: '' @ operation)), w))"

text \<open>
  \<^verbatim>\<open>performOperation\<close> is an \<^verbatim>\<open>async\<close> function with one \<^verbatim>\<open>await\<close>, on the promise of the
  operation it dispatches to. None of the six operations awaits, so all the effects of
  the operation happen in the first part of the call, \<open>performOperation_start\<close>, which
  also holds the two places that throw: the unknown universe, before an operation
  identifier is drawn, and the operation itself. The part after the \<^verbatim>\<open>await\<close>,
  \<open>performOperation_finish\<close>, runs as a microtask: it appends the record to the log of the
  universe's entry and builds the value returned. No entry leaves the map between the
  two parts, since \<^verbatim>\<open>cleanup\<close> runs from a timer.
\<close>

definition performOperation_start ::
  "string \<Rightarrow> string \<Rightarrow> obj \<Rightarrow> world \<Rightarrow> (error + string \<times> operation_result) \<times> world" where
  "performOperation_start universeId operation params w =
     (case map_of (manager_universes w) universeId of
        None \<Rightarrow> (Inl (Error (''Universe '' @ universeId @ '' not found'')), w)
      | Some universeData \<Rightarrow>
          (let (operationId, w1) = uuidv4 w in
           case dispatch operation (ud_universe universeData) params w1 of
             (Inl e, w2) \<Rightarrow> (Inl e, w2)
           | (Inr r, w2) \<Rightarrow> (Inr (operationId, r), w2)))"

definition performOperation_finish ::
  "string \<Rightarrow> string \<Rightarrow> obj \<Rightarrow> string \<times> operation_result \<Rightarrow> world \<Rightarrow> operation_outcome \<times> world" where
  "performOperation_finish universeId operation params started w =
     (let operationRecord =
            \<lparr>op_id = fst started, op_operation = operation, op_params = params,
             op_result = result_metadata (snd started), op_timestamp = clock w\<rparr>;
          w1 = w\<lparr>manager_universes :=
                  AList.map_entry universeId
                    (\<lambda>d. d\<lparr>operations := operations d @ [operationRecord]\<rparr>)
                    (manager_universes w),
                statistics := (statistics w)
                  \<lparr>operationsCompleted := operationsCompleted (statistics w) + 1\<rparr>\<rparr>
      in (\<lparr>out_operationId = fst started,
           out_operation = operation,
           out_result = snd started,
           out_universeId = universeId,
           out_timestamp = clock w1,
           out_operationIndex =
             (case map_of (manager_universes w1) universeId of
                None \<Rightarrow> 0
              | Some d \<Rightarrow> length (operations d))\<rparr>, w1))"

definition performOperation ::
  "string \<Rightarrow> string \<Rightarrow> obj \<Rightarrow> world \<Rightarrow> (error + operation_outcome) \<times> world" where
  "performOperation universeId operation params w =
     (case performOperation_start universeId operation params w of
        (Inl e, w1) \<Rightarrow> (Inl e, w1)
      | (Inr started, w1) \<Rightarrow>
          (let (outcome, w2) = performOperation_finish universeId operation params started w1
           in (Inr outcome, w2)))"

subsection \<open>processBatchOperation\<close>

text \<open>
  \<^verbatim>\<open>operations.map(async (op, index) => ...)\<close> calls the callback for each operation in
  turn; each call runs the first part of its \<^verbatim>\<open>performOperation\<close> and is suspended. The
  continuations then run in the order of the calls: an operation that threw becomes
  \<^verbatim>\<open>{error: error.message, index}\<close>, every other one completes.
\<close>

fun start_all ::
  "batch_operation list \<Rightarrow> world \<Rightarrow> (error + string \<times> operation_result) list \<times> world" where
  "start_all [] w = ([], w)"
| "start_all (op # ops) w =
     (let (s, w1) = performOperation_start (bo_universeId op) (bo_operation op) (bo_params op) w;
          (ss, w2) = start_all ops w1
      in (s # ss, w2))"

fun finish_all ::
  "nat \<Rightarrow> (batch_operation \<times> (error + string \<times> operation_result)) list \<Rightarrow> world
     \<Rightarrow> batch_item list \<times> world" where
  "finish_all index [] w = ([], w)"
| "finish_all index ((op, Inl (Error message)) # rest) w =
     (let (items, w1) = finish_all (Suc index) rest w
      in (Failed message index # items, w1))"
| "finish_all index ((op, Inr started) # rest) w =
     (let (outcome, w1) =
            performOperation_finish (bo_universeId op) (bo_operation op) (bo_params op) started w;
          (items, w2) = finish_all (Suc index) rest w1
      in (Completed outcome # items, w2))"

definition processBatchOperation :: "batch_operation list \<Rightarrow> world \<Rightarrow> batch_result \<times> world" where
  "processBatchOperation ops w =
     (let (batchId, w0) = uuidv4 w;
          (started, w1) = start_all ops w0;
          (results, w2) = finish_all 0 (zip ops started) w1;
          w3 = w2\<lparr>statistics := (statistics w2)
                 \<lparr>batchOperationsCompleted := batchOperationsCompleted (statistics w2) + 1\<rparr>\<rparr>
      in (\<lparr>br_batchId = batchId, br_operations = length ops, br_results = results\<rparr>, w3))"

subsection \<open>cleanup\<close>

text \<open>The sweep that removes the entries older than \<^verbatim>\<open>this.config.maxAge || 3600000\<close>.\<close>

definition cleanup :: "world \<Rightarrow> world" where
  "cleanup w =
     (if \<not> autoCleanup (config w) then w
      else
        (let limit = (case maxAge (config w) of
                        None \<Rightarrow> 3600000
                      | Some m \<Rightarrow> if m \<noteq> 0 then m else 3600000);
             kept = filter (\<lambda>(i, d). \<not> (clock w - ud_createdAt d > limit)) (manager_universes w);
             cleanedUp = int (length (manager_universes w)) - int (length kept)
         in if cleanedUp > 0
            then w\<lparr>manager_universes := kept,
                   statistics := (statistics w)
                     \<lparr>totalDestroyed := totalDestroyed (statistics w) + cleanedUp\<rparr>\<rparr>
            else w\<lparr>manager_universes := kept\<rparr>))"

section \<open>Specification predicates and scenarios\<close>

text \<open>
  A universe's recorded size agrees with its state, and a snapshot's with the state it
  holds. States have pairwise distinct property names.
\<close>

definition size_ok :: "universe \<Rightarrow> bool" where
  "size_ok u = (get_prop (metadata u) ''stateSize'' = Some (stateSize_of (state u)))"

definition snapshot_size_ok :: "snapshot \<Rightarrow> bool" where
  "snapshot_size_ok s =
     (get_prop (snapshot_metadata s) ''stateSize'' = Some (stateSize_of (snapshot_state s)))"

definition universe_ok :: "universe \<Rightarrow> bool" where
  "universe_ok u =
     (distinct (map fst (state u)) \<and> size_ok u \<and> list_all snapshot_size_ok (snapshots u))"

definition sizes_ok :: "world \<Rightarrow> bool" where
  "sizes_ok w = (\<forall>r. universe_ok (heap w r))"

text \<open>Any number of calls of \<^verbatim>\<open>updateState\<close> on one universe.\<close>

fun run_updates :: "nat \<Rightarrow> jsval list \<Rightarrow> world \<Rightarrow> world" where
  "run_updates this [] w = w"
| "run_updates this (upd # upds) w = run_updates this upds (snd (updateState this upd w))"

text \<open>
  The entries of the engine's map refer to objects that exist, under identifiers that
  \<^verbatim>\<open>uuidv4()\<close> has already returned.
\<close>

definition engine_wf :: "world \<Rightarrow> bool" where
  "engine_wf w =
     list_all (\<lambda>(k, r). r < next_ref w \<and> k \<in> set (map uuid_text [0..<uuid_count w]))
       (engine_universes w)"

text \<open>
  The scenario of the specification: universe A is created with state \<^verbatim>\<open>{x: 1}\<close>, cloned
  into B, and B is updated with \<^verbatim>\<open>{x: 2}\<close>.
\<close>

definition scenario_A :: "nat \<times> world" where
  "scenario_A =
     engine_createUniverse [(''initialState'', JObj [(''x'', JNum 1)])] (new_world None 100)"

definition scenario_B :: "nat \<times> world" where
  "scenario_B = (case engine_cloneUniverse ''uuid-0'' [] (snd scenario_A) of
                   Inr p \<Rightarrow> p | Inl e \<Rightarrow> (0, snd scenario_A))"

definition scenario_C :: world where
  "scenario_C = snd (updateState (fst scenario_B) (JObj [(''x'', JNum 2)]) (snd scenario_B))"

text \<open>A snapshot of A, and an engine whose limit is one universe, holding one.\<close>

definition scenario_S :: "snapshot \<times> world" where
  "scenario_S = createSnapshot 0 [(''name'', JStr ''first'')] (snd scenario_A)"

definition full_store :: world where
  "full_store = snd (engine_createUniverse [] (new_world (Some 1) 100))"

text \<open>
  Removing one entry from the manager's map, the step that \<^verbatim>\<open>cleanup\<close> applies to an entry
  past the age limit.
\<close>

definition evict :: "string \<Rightarrow> world \<Rightarrow> world" where
  "evict i w = w\<lparr>manager_universes := AList.delete i (manager_universes w)\<rparr>"

text \<open>
  A lineage in the manager: A is created by \<^verbatim>\<open>createUniverses\<close> at time 0 and cloned into B
  at time 10. In \<open>lineage_C\<close> the sweep at time 3600005 has removed A, the parent, and kept
  B; in \<open>lineage_D\<close> B, the child, is evicted and A is kept.
\<close>

definition lineage_A :: world where
  "lineage_A = (case createUniverses 1 [(''initialState'', JObj [(''x'', JNum 1)])] (new_world None 100) of
                  Some (r, w) \<Rightarrow> w | None \<Rightarrow> new_world None 100)"

definition lineage_B :: world where
  "lineage_B = snd (performOperation ''uuid-1'' ''clone'' [] (lineage_A\<lparr>clock := 10\<rparr>))"

definition lineage_C :: world where
  "lineage_C = cleanup (lineage_B\<lparr>clock := 3600005\<rparr>)"

definition lineage_D :: world where
  "lineage_D = evict ''uuid-3'' lineage_B"

text \<open>
  The children lists do not lead back: along every recorded child that is live, \<open>rank\<close>
  goes down. A child is created after its parent, so the order of creation is such a
  rank in the states that creating and cloning build.
\<close>

definition acyclic_children :: "(nat \<Rightarrow> nat) \<Rightarrow> world \<Rightarrow> bool" where
  "acyclic_children rank w =
     (\<forall>r. \<forall>c \<in> set (children (heap w r)). \<forall>d.
        map_of (manager_universes w) c = Some d \<longrightarrow> rank (ud_universe d) < rank r)"

text \<open>
  The state that a call of \<^verbatim>\<open>createUniverses\<close> leaves, and a manager with three universes:
  the target \<^verbatim>\<open>{x: 1, y: 1, z: 1}\<close> and the sources \<^verbatim>\<open>{x: 2, y: 2}\<close> and \<^verbatim>\<open>{x: 3}\<close>.
\<close>

definition after_createUniverses :: "int \<Rightarrow> obj \<Rightarrow> world \<Rightarrow> world" where
  "after_createUniverses n cfg w = (case createUniverses n cfg w of Some (r, w') \<Rightarrow> w' | None \<Rightarrow> w)"

definition merge_world :: world where
  "merge_world =
     after_createUniverses 1 [(''initialState'', JObj [(''x'', JNum 3)])]
       (after_createUniverses 1 [(''initialState'', JObj [(''x'', JNum 2), (''y'', JNum 2)])]
          (after_createUniverses 1
             [(''initialState'', JObj [(''x'', JNum 1), (''y'', JNum 1), (''z'', JNum 1)])]
             (new_world None 100)))"

text \<open>
  The state of a batch with identifier \<open>b\<close> that started in \<open>w0\<close>, after \<open>m\<close> universes: the
  \<open>k\<close>-th one is the \<open>k\<close>-th object placed in the heap since, it carries the \<open>k\<close>-th
  identifier drawn since, its metadata records \<open>b\<close> and the creation index \<open>k\<close>, and the
  engine's map finds it; \<open>registered_upto\<close> says that the manager's map finds it too, in an
  entry that records \<open>b\<close>.
\<close>

definition created_upto :: "string \<Rightarrow> world \<Rightarrow> nat \<Rightarrow> world \<Rightarrow> bool" where
  "created_upto b w0 m w =
     (next_ref w = next_ref w0 + m \<and>
      uuid_count w = uuid_count w0 + m \<and>
      config w = config w0 \<and>
      (\<forall>k<m. uid (heap w (next_ref w0 + k)) = uuid_text (uuid_count w0 + k) \<and>
              get_prop (metadata (heap w (next_ref w0 + k))) ''creationIndex'' = Some (JNum (int k)) \<and>
              get_prop (metadata (heap w (next_ref w0 + k))) ''batchId'' = Some (JStr b) \<and>
              map_of (engine_universes w) (uuid_text (uuid_count w0 + k)) = Some (next_ref w0 + k)))"

definition registered_upto :: "string \<Rightarrow> world \<Rightarrow> nat \<Rightarrow> world \<Rightarrow> bool" where
  "registered_upto b w0 m w =
     (\<forall>k<m. \<exists>d. map_of (manager_universes w) (uuid_text (uuid_count w0 + k)) = Some d \<and>
                 ud_universe d = next_ref w0 + k \<and> ud_batchId d = Some b)"

text \<open>
  The first and the second part of \<^verbatim>\<open>performOperation\<close> for a request of a batch, and the
  state in which the \<open>i\<close>-th request of a batch starts: the batch identifier is drawn and
  the requests before it have started.
\<close>

definition batch_state_before :: "batch_operation list \<Rightarrow> nat \<Rightarrow> world \<Rightarrow> world" where
  "batch_state_before ops i w = snd (start_all (take i ops) (snd (uuidv4 w)))"

definition start_of :: "batch_operation \<Rightarrow> world \<Rightarrow> (error + string \<times> operation_result) \<times> world" where
  "start_of op w = performOperation_start (bo_universeId op) (bo_operation op) (bo_params op) w"

definition finish_of ::
  "batch_operation \<Rightarrow> string \<times> operation_result \<Rightarrow> world \<Rightarrow> operation_outcome \<times> world" where
  "finish_of op started w =
     performOperation_finish (bo_universeId op) (bo_operation op) (bo_params op) started w"

text \<open>
  From \<open>w\<close> to \<open>w'\<close> the manager's map has kept its keys and has gained none but
  identifiers that \<^verbatim>\<open>uuidv4()\<close> had not returned in \<open>w\<close>.
\<close>

definition keys_grow :: "world \<Rightarrow> world \<Rightarrow> bool" where
  "keys_grow w w' =
     (uuid_count w \<le> uuid_count w' \<and>
      fst ` set (manager_universes w) \<subseteq> fst ` set (manager_universes w') \<and>
      fst ` set (manager_universes w') \<subseteq>
        fst ` set (manager_universes w) \<union> {uuid_text n |n. uuid_count w \<le> n})"

text \<open>
  Five requests against the manager that holds the one universe \<^verbatim>\<open>uuid-1\<close>; the third
  names a universe that does not exist. \<open>item_summary\<close> shows an element of the results as
  the operation that completed, or the message and index of the failure.
\<close>

definition five_operations :: "batch_operation list" where
  "five_operations =
     [\<lparr>bo_universeId = ''uuid-1'', bo_operation = ''snapshot'', bo_params = []\<rparr>,
      \<lparr>bo_universeId = ''uuid-1'', bo_operation = ''update'',
        bo_params = [(''updates'', JObj [(''y'', JNum 2)])]\<rparr>,
      \<lparr>bo_universeId = ''no-such-universe'', bo_operation = ''clone'', bo_params = []\<rparr>,
      \<lparr>bo_universeId = ''uuid-1'', bo_operation = ''branch'',
        bo_params = [(''modifications'', JObj [(''z'', JNum 3)])]\<rparr>,
      \<lparr>bo_universeId = ''uuid-1'', bo_operation = ''merge'',
        bo_params = [(''sourceIds'', JArr [JStr ''uuid-1''])]\<rparr>]"

fun item_summary :: "batch_item \<Rightarrow> string \<times> nat option" where
  "item_summary (Completed outcome) = (out_operation outcome, None)"
| "item_summary (Failed message index) = (message, Some index)"

section \<open>Auxiliary lemmas\<close>

subsection \<open>Objects and the spread\<close>

lemma update_fresh: "k \<notin> fst ` set al \<Longrightarrow> AList.update k v al = al @ [(k, v)]"
  by (induction al) auto

lemma spread_Nil [simp]: "spread a [] = a"
  by (simp add: spread_def)

lemma spread_Cons [simp]: "spread a ((k, v) # b) = spread (AList.update k v a) b"
  by (simp add: spread_def)

lemma map_of_spread:
  "map_of (spread a b) k = (case map_of (rev b) k of Some v \<Rightarrow> Some v | None \<Rightarrow> map_of a k)"
proof (induction b arbitrary: a)
  case Nil
  then show ?case by simp
next
  case (Cons p b)
  obtain k' v' where p: "p = (k', v')" by (cases p)
  show ?case
    by (simp add: p Cons.IH update_conv' map_add_def split: option.splits)
qed

lemma map_of_rev_distinct: "distinct (map fst xs) \<Longrightarrow> map_of (rev xs) = map_of xs"
proof (induction xs)
  case Nil
  then show ?case by simp
next
  case (Cons x xs)
  obtain k v where x: "x = (k, v)" by (cases x)
  from Cons.prems have notin: "map_of xs k = None"
    by (simp add: x map_of_eq_None_iff)
  from Cons have IH: "map_of (rev xs) = map_of xs" by simp
  show ?case
  proof
    fix j
    show "map_of (rev (x # xs)) j = map_of (x # xs) j"
      using notin by (cases "j = k") (simp_all add: x IH map_add_def split: option.splits)
  qed
qed

lemma get_prop_spread:
  "distinct (map fst b) \<Longrightarrow>
   get_prop (spread a b) k = (case get_prop b k of Some v \<Rightarrow> Some v | None \<Rightarrow> get_prop a k)"
  unfolding get_prop_def by (simp add: map_of_spread map_of_rev_distinct)

lemma distinct_spread: "distinct (map fst a) \<Longrightarrow> distinct (map fst (spread a b))"
proof (induction b arbitrary: a)
  case Nil
  then show ?case by simp
next
  case (Cons x b)
  obtain k v where x: "x = (k, v)" by (cases x)
  from Cons.prems have "distinct (map fst (AList.update k v a))" by (simp add: distinct_update)
  then show ?case using Cons.IH by (simp add: x)
qed

lemma spread_append_distinct:
  "distinct (map fst (p @ a)) \<Longrightarrow> spread p a = p @ a"
proof (induction a arbitrary: p)
  case Nil
  then show ?case by simp
next
  case (Cons x a)
  obtain k v where x: "x = (k, v)" by (cases x)
  from Cons.prems have "k \<notin> fst ` set p" by (auto simp: x)
  then have "AList.update k v p = p @ [(k, v)]" by (rule update_fresh)
  moreover from Cons.prems have "distinct (map fst ((p @ [(k, v)]) @ a))" by (simp add: x)
  ultimately show ?case using Cons.IH [of "p @ [(k, v)]"] by (simp add: x)
qed

lemma spread_empty_distinct: "distinct (map fst a) \<Longrightarrow> spread [] a = a"
  using spread_append_distinct [of "[]" a] by simp

subsection \<open>Identifiers are pairwise different\<close>

lemma digit_char_inj: "a < 10 \<Longrightarrow> b < 10 \<Longrightarrow> digit_char a = digit_char b \<Longrightarrow> a = b"
proof -
  assume a: "a < 10" and b: "b < 10" and e: "digit_char a = digit_char b"
  from a have "a \<in> {0,1,2,3,4,5,6,7,8,9}" by auto
  moreover from b have "b \<in> {0,1,2,3,4,5,6,7,8,9}" by auto
  ultimately show "a = b" using e unfolding digit_char_def by auto
qed

lemma digits_nonempty: "digits n \<noteq> []"
  by (subst digits.simps) simp

lemma digits_inj: "digits n = digits m \<Longrightarrow> n = m"
proof (induction n arbitrary: m rule: digits.induct)
  case (1 n)
  show ?case
  proof (cases "n < 10")
    case n: True
    show ?thesis
    proof (cases "m < 10")
      case True
      with n "1.prems" show ?thesis
        by (subst (asm) digits.simps, subst (asm) (2) digits.simps) (simp add: digit_char_inj)
    next
      case False
      with n "1.prems" digits_nonempty [of "m div 10"] show ?thesis
        by (subst (asm) digits.simps, subst (asm) (2) digits.simps) simp
    qed
  next
    case n: False
    show ?thesis
    proof (cases "m < 10")
      case True
      with n "1.prems" digits_nonempty [of "n div 10"] show ?thesis
        by (subst (asm) digits.simps, subst (asm) (2) digits.simps) simp
    next
      case False
      from n False "1.prems" have e: "digits (n div 10) = digits (m div 10)"
        and d: "digit_char (n mod 10) = digit_char (m mod 10)"
        by (subst (asm) digits.simps, subst (asm) (2) digits.simps, simp)+
      from "1.IH" [OF n e] have "n div 10 = m div 10" .
      moreover from d have "n mod 10 = m mod 10" by (simp add: digit_char_inj)
      ultimately show ?thesis by (metis div_mult_mod_eq)
    qed
  qed
qed

lemma uuid_text_inj: "uuid_text n = uuid_text m \<Longrightarrow> n = m"
  by (simp add: uuid_text_def digits_inj)

subsection \<open>The recorded sizes\<close>

lemma universe_ok_HeliosUniverse: "universe_ok (HeliosUniverse now cfg)"
  by (simp add: universe_ok_def size_ok_def HeliosUniverse_def Let_def get_prop_def
      map_of_spread distinct_spread update_conv')

lemma universe_ok_children [simp]: "universe_ok (u\<lparr>children := c\<rparr>) = universe_ok u"
  by (simp add: universe_ok_def size_ok_def)

lemma heap_uuidv4 [simp]: "heap (snd (uuidv4 w)) = heap w"
  by (simp add: uuidv4_def)

lemma sizes_ok_createUniverse: "sizes_ok w \<Longrightarrow> sizes_ok (snd (engine_createUniverse cfg w))"
  by (simp add: sizes_ok_def engine_createUniverse_def uuidv4_def alloc_def Let_def
      updateAverageOperationTime_def universe_ok_HeliosUniverse)

lemma sizes_ok_clone: "sizes_ok w \<Longrightarrow> sizes_ok (snd (clone this cfg w))"
  by (simp add: sizes_ok_def clone_def uuidv4_def alloc_def Let_def universe_ok_HeliosUniverse)

lemma sizes_ok_updateState: "sizes_ok w \<Longrightarrow> sizes_ok (snd (updateState this upd w))"
  by (simp add: sizes_ok_def updateState_def Let_def)
     (simp add: universe_ok_def size_ok_def get_prop_def update_conv' distinct_spread stateSize_of_def)

lemma sizes_ok_createSnapshot: "sizes_ok w \<Longrightarrow> sizes_ok (snd (createSnapshot this md w))"
  by (simp add: sizes_ok_def createSnapshot_def uuidv4_def Let_def)
     (simp add: universe_ok_def size_ok_def snapshot_size_ok_def get_prop_def map_of_spread
        spread_empty_distinct update_conv')

lemma sizes_ok_new_world: "sizes_ok (new_world mx depth)"
  by (simp add: sizes_ok_def new_world_def universe_ok_HeliosUniverse)

subsection \<open>The universe methods and the engine\<close>

lemma engine_wfD:
  "engine_wf w \<Longrightarrow> map_of (engine_universes w) k = Some r \<Longrightarrow>
   r < next_ref w \<and> k \<noteq> uuid_text (uuid_count w)"
proof -
  assume wf: "engine_wf w" and m: "map_of (engine_universes w) k = Some r"
  from m have "(k, r) \<in> set (engine_universes w)" by (rule map_of_SomeD)
  with wf have "r < next_ref w" and "k \<in> set (map uuid_text [0..<uuid_count w])"
    by (auto simp: engine_wf_def list_all_iff)
  then show ?thesis by (auto dest: uuid_text_inj)
qed

lemma engine_wf_fresh:
  assumes wf: "engine_wf w"
  shows "uuid_text (uuid_count w) \<notin> fst ` set (engine_universes w)"
proof
  assume "uuid_text (uuid_count w) \<in> fst ` set (engine_universes w)"
  then obtain r where "map_of (engine_universes w) (uuid_text (uuid_count w)) = Some r"
    by (metis domD dom_map_of_conv_image_fst)
  from engine_wfD [OF wf this] show False by simp
qed

lemma updateState_frame:
  "engine_universes (snd (updateState this upd w)) = engine_universes w"
  "next_ref (snd (updateState this upd w)) = next_ref w"
  "uuid_count (snd (updateState this upd w)) = uuid_count w"
  "r \<noteq> this \<Longrightarrow> heap (snd (updateState this upd w)) r = heap w r"
  "uid (heap (snd (updateState this upd w)) r) = uid (heap w r)"
  "parentId (heap (snd (updateState this upd w)) r) = parentId (heap w r)"
  "snapshots (heap (snd (updateState this upd w)) r) = snapshots (heap w r)"
  "children (heap (snd (updateState this upd w)) r) = children (heap w r)"
  by (simp_all add: updateState_def Let_def)

lemma updateState_result:
  "cowTriggered (fst (updateState this upd w)) = (parentId (heap w this) \<noteq> JNull)"
  "state (heap (snd (updateState this upd w)) this) = spread (spread [] (state (heap w this))) (props_of upd)"
  by (simp_all add: updateState_def Let_def)

lemma run_updates_frame:
  "engine_universes (run_updates this upds w) = engine_universes w"
  "next_ref (run_updates this upds w) = next_ref w"
  "uuid_count (run_updates this upds w) = uuid_count w"
  "r \<noteq> this \<Longrightarrow> heap (run_updates this upds w) r = heap w r"
  "uid (heap (run_updates this upds w) r) = uid (heap w r)"
  "parentId (heap (run_updates this upds w) r) = parentId (heap w r)"
  "snapshots (heap (run_updates this upds w) r) = snapshots (heap w r)"
  "children (heap (run_updates this upds w) r) = children (heap w r)"
  by (induction upds arbitrary: w; simp add: updateState_frame)+

lemma clone_result:
  "fst (clone this cfg w) = next_ref w"
  "next_ref (snd (clone this cfg w)) = Suc (next_ref w)"
  "uuid_count (snd (clone this cfg w)) = Suc (uuid_count w)"
  "engine_universes (snd (clone this cfg w)) = engine_universes w"
  "uid (heap (snd (clone this cfg w)) (next_ref w)) = uuid_text (uuid_count w)"
  "parentId (heap (snd (clone this cfg w)) (next_ref w)) = JStr (uid (heap w this))"
  "state (heap (snd (clone this cfg w)) (next_ref w)) = spread [] (state (heap w this))"
  "r \<noteq> next_ref w \<Longrightarrow> state (heap (snd (clone this cfg w)) r) = state (heap w r)"
  "r \<noteq> next_ref w \<Longrightarrow> r \<noteq> this \<Longrightarrow> heap (snd (clone this cfg w)) r = heap w r"
  "this \<noteq> next_ref w \<Longrightarrow> children (heap (snd (clone this cfg w)) this) = children (heap w this) @ [uuid_text (uuid_count w)]"
  by (simp_all add: clone_def uuidv4_def alloc_def Let_def HeliosUniverse_def)

subsection \<open>The scenario of the engine\<close>

lemma digits_small [simp]: "n < 10 \<Longrightarrow> digits n = [digit_char n]"
  by (subst digits.simps) simp

lemma scenario_A_eval:
  "fst scenario_A = 0"
  "engine_universes (snd scenario_A) = [(''uuid-0'', 0)]"
  "next_ref (snd scenario_A) = 1"
  "uuid_count (snd scenario_A) = 1"
  "state (heap (snd scenario_A) 0) = [(''x'', JNum 1)]"
  by (simp_all add: scenario_A_def engine_createUniverse_def new_world_def uuidv4_def alloc_def Let_def
      HeliosUniverse_def updateAverageOperationTime_def get_prop_def uuid_text_def digit_char_def)

lemmas eval_defs = engine_createUniverse_def engine_cloneUniverse_def engine_getUniverse_def
  new_world_def uuidv4_def alloc_def Let_def HeliosUniverse_def updateAverageOperationTime_def
  get_prop_def uuid_text_def digit_char_def clone_def updateState_def createSnapshot_def
  stateSize_of_def

lemma scenario_B_Inr: "engine_cloneUniverse ''uuid-0'' [] (snd scenario_A) = Inr scenario_B"
  by (simp add: scenario_B_def engine_cloneUniverse_def scenario_A_eval split: prod.splits)

lemma scenario_A_wf: "engine_wf (snd scenario_A)"
  by (simp add: engine_wf_def scenario_A_eval uuid_text_def digit_char_def)

subsection \<open>Snapshots and creation\<close>

lemma createSnapshot_result:
  "snapshots (heap (snd (createSnapshot this md w)) this) =
     snapshots (heap w this) @ [fst (createSnapshot this md w)]"
  "snapshot_state (fst (createSnapshot this md w)) = spread [] (state (heap w this))"
  "state (heap (snd (createSnapshot this md w)) r) = state (heap w r)"
  by (simp_all add: createSnapshot_def uuidv4_def Let_def)

lemma createUniverse_result:
  "fst (engine_createUniverse cfg w) = next_ref w"
  "next_ref (snd (engine_createUniverse cfg w)) = Suc (next_ref w)"
  "uuid_count (snd (engine_createUniverse cfg w)) = Suc (uuid_count w)"
  "engine_universes (snd (engine_createUniverse cfg w)) =
     AList.update (uuid_text (uuid_count w)) (next_ref w) (engine_universes w)"
  "uid (heap (snd (engine_createUniverse cfg w)) (next_ref w)) = uuid_text (uuid_count w)"
  "parentId (heap (snd (engine_createUniverse cfg w)) (next_ref w)) = js_or (get_prop cfg ''parentId'') JNull"
  "state (heap (snd (engine_createUniverse cfg w)) (next_ref w)) =
     spread [] (props_of (js_or (get_prop cfg ''initialState'') (JObj [])))"
  "r \<noteq> next_ref w \<Longrightarrow> heap (snd (engine_createUniverse cfg w)) r = heap w r"
  "maxUniverses (snd (engine_createUniverse cfg w)) = maxUniverses w"
  "activeUniverses (metrics (snd (engine_createUniverse cfg w))) = activeUniverses (metrics w) + 1"
  "manager_universes (snd (engine_createUniverse cfg w)) = manager_universes w"
  by (simp_all add: engine_createUniverse_def uuidv4_def alloc_def Let_def HeliosUniverse_def
      updateAverageOperationTime_def)

lemma full_store_eval:
  "engine_universes full_store = [(''uuid-0'', 0)]"
  "maxUniverses full_store = 1"
  "next_ref full_store = 1"
  "uuid_count full_store = 1"
  by (simp_all add: full_store_def eval_defs)

subsection \<open>Integrity and descendants\<close>

lemmas manager_eval_defs = createUniverses_def createUniverses_outer.simps createUniverses_inner.simps
  universeConfig_def track_universe_def performOperation_def performOperation_start_def
  performOperation_finish_def dispatch_def manager_cloneUniverse_def manager_createSnapshot_def
  updateUniverse_def branchUniverse_def mergeUniverse_def analyzeUniverse_def cleanup_def
  show_int_def

lemma lineage_A_eval:
  "manager_universes lineage_A = [(''uuid-1'', \<lparr>ud_universe = 0, ud_createdAt = 0, ud_batchId = Some ''uuid-0'',
       ud_parentId = None, ud_branchType = None, operations = []\<rparr>)]"
  "next_ref lineage_A = 1"
  "uuid_count lineage_A = 2"
  "config lineage_A = config (new_world None 100)"
  by (simp_all add: lineage_A_def manager_eval_defs eval_defs)

lemma fold_issues:
  "fold (\<lambda>c acc. if P c then acc @ [f c] else acc) xs acc0 = acc0 @ map f (filter P xs)"
  by (induction xs arbitrary: acc0) simp_all

lemma checkIntegrity_issues:
  "issues (checkIntegrity u w) =
     (if truthy (parentId (heap w u)) \<and> manager_get (parentId (heap w u)) w = None
      then [''Parent universe not found''] else [])
     @ map (\<lambda>c. ''Child universe '' @ c @ '' not found'')
         (filter (\<lambda>c. map_of (manager_universes w) c = None) (children (heap w u)))"
  by (simp add: checkIntegrity_def Let_def fold_issues split: option.splits)

lemma checkIntegrity_healthy:
  "healthy (checkIntegrity u w) = (issues (checkIntegrity u w) = [])"
  by (simp add: checkIntegrity_def Let_def)

lemma lineage_B_eval:
  "map (\<lambda>(k, d). (k, ud_universe d)) (manager_universes lineage_B) = [(''uuid-1'', 0), (''uuid-3'', 1)]"
  "parentId (heap lineage_B 1) = JStr ''uuid-1''"
  "children (heap lineage_B 1) = []"
  "children (heap lineage_B 0) = [''uuid-3'']"
  "parentId (heap lineage_B 0) = JNull"
  "map (\<lambda>(k, d). (k, ud_createdAt d)) (manager_universes lineage_B) = [(''uuid-1'', 0), (''uuid-3'', 10)]"
  "config lineage_B = config (new_world None 100)"
  by (simp_all add: lineage_B_def lineage_A_def manager_eval_defs eval_defs)

lemma lineage_C_eval:
  "map fst (manager_universes lineage_C) = [''uuid-3'']"
  "heap lineage_C = heap lineage_B"
proof -
  obtain d1 d3 where m: "manager_universes lineage_B = [(''uuid-1'', d1), (''uuid-3'', d3)]"
    and c: "ud_createdAt d1 = 0" "ud_createdAt d3 = 10"
    using lineage_B_eval(1,6) by (auto simp: map_eq_Cons_conv)
  show "map fst (manager_universes lineage_C) = [''uuid-3'']"
    by (simp add: lineage_C_def cleanup_def lineage_B_eval(7) new_world_def m c Let_def)
  show "heap lineage_C = heap lineage_B"
    by (simp add: lineage_C_def cleanup_def Let_def)
qed

lemma fold_count:
  assumes "\<forall>c\<in>set cs. \<forall>d. M c = Some d \<longrightarrow> g (ud_universe d) \<noteq> None"
  shows "fold (\<lambda>childId count.
            case count of
              None \<Rightarrow> None
            | Some n \<Rightarrow>
                (case M childId of
                   None \<Rightarrow> Some n
                 | Some childData \<Rightarrow>
                     (case g (ud_universe childData) of
                        None \<Rightarrow> None
                      | Some k \<Rightarrow> Some (n + k)))) cs (Some a)
         = Some (a + (\<Sum>c\<leftarrow>cs. case M c of None \<Rightarrow> 0 | Some d \<Rightarrow> the (g (ud_universe d))))"
  using assms
proof (induction cs arbitrary: a)
  case Nil
  then show ?case by simp
next
  case (Cons c cs)
  show ?case
  proof (cases "M c")
    case None
    with Cons show ?thesis by simp
  next
    case (Some d)
    with Cons.prems obtain k where k: "g (ud_universe d) = Some k" by auto
    from Cons.prems have "\<forall>c\<in>set cs. \<forall>d. M c = Some d \<longrightarrow> g (ud_universe d) \<noteq> None" by simp
    from Cons.IH [OF this, of "a + k"] Some k show ?thesis by (simp add: add.assoc)
  qed
qed

lemma countDescendants_terminates:
  "acyclic_children rank w \<Longrightarrow> rank u < n \<Longrightarrow> countDescendants n w u \<noteq> None"
proof (induction n arbitrary: u)
  case 0
  then show ?case by simp
next
  case (Suc n)
  have "\<forall>c\<in>set (children (heap w u)). \<forall>d. map_of (manager_universes w) c = Some d \<longrightarrow>
          countDescendants n w (ud_universe d) \<noteq> None"
  proof (intro ballI allI impI)
    fix c d
    assume "c \<in> set (children (heap w u))" and "map_of (manager_universes w) c = Some d"
    with Suc.prems(1) have "rank (ud_universe d) < rank u"
      by (auto simp: acyclic_children_def)
    with Suc.prems(2) have "rank (ud_universe d) < n" by simp
    from Suc.IH [OF Suc.prems(1) this] show "countDescendants n w (ud_universe d) \<noteq> None" .
  qed
  from fold_count [of "children (heap w u)" "map_of (manager_universes w)" "countDescendants n w", OF this]
  show ?case by simp
qed

lemma lineage_D_eval:
  "map fst (manager_universes lineage_D) = [''uuid-1'']"
  "heap lineage_D = heap lineage_B"
  "stack_limit lineage_D = 100"
proof -
  obtain d1 d3 where m: "manager_universes lineage_B = [(''uuid-1'', d1), (''uuid-3'', d3)]"
    using lineage_B_eval(1) by (auto simp: map_eq_Cons_conv)
  show "map fst (manager_universes lineage_D) = [''uuid-1'']"
    by (simp add: lineage_D_def evict_def m)
  show "heap lineage_D = heap lineage_B"
    by (simp add: lineage_D_def evict_def)
  show "stack_limit lineage_D = 100"
    by (simp add: lineage_D_def evict_def lineage_B_def lineage_A_def manager_eval_defs eval_defs)
qed

lemma lineage_D_evicted: "map_of (manager_universes lineage_D) ''uuid-3'' = None"
proof -
  have "fst ` set (manager_universes lineage_D) = set [''uuid-1'']"
    using lineage_D_eval(1) by (metis list.set_map)
  then show ?thesis by (simp add: map_of_eq_None_iff)
qed

lemma lineage_B_children: "children (heap lineage_B r) = (if r = 0 then [''uuid-3''] else [])"
  by (simp add: lineage_B_def lineage_A_def manager_eval_defs eval_defs)

subsection \<open>Merging\<close>

lemma mergedState_two:
  assumes "distinct (map fst (state (heap w t)))"
    and "distinct (map fst (state (heap w ra)))"
    and "distinct (map fst (state (heap w rb)))"
  shows "get_prop (mergedState t [ra, rb] w) k =
     (case get_prop (state (heap w rb)) k of
        Some v \<Rightarrow> Some v
      | None \<Rightarrow> (case get_prop (state (heap w ra)) k of
                   Some v \<Rightarrow> Some v
                 | None \<Rightarrow> get_prop (state (heap w t)) k))"
proof -
  let ?t = "state (heap w t)" and ?a = "state (heap w ra)" and ?b = "state (heap w rb)"
  have d1: "distinct (map fst (spread (spread [] (spread [] ?t)) ?a))"
    by (simp add: distinct_spread)
  have "mergedState t [ra, rb] w = spread (spread [] (spread (spread [] (spread [] ?t)) ?a)) ?b"
    by (simp add: mergedState_def)
  also have "\<dots> = spread (spread ?t ?a) ?b"
    using d1 assms(1) by (simp add: spread_empty_distinct)
  finally show ?thesis
    using assms(2,3) by (simp add: get_prop_spread split: option.splits)
qed

lemma merge_world_eval:
  "map (\<lambda>(k, d). (k, ud_universe d)) (manager_universes merge_world) =
     [(''uuid-1'', 0), (''uuid-3'', 1), (''uuid-5'', 2)]"
  "state (heap merge_world 0) = [(''x'', JNum 1), (''y'', JNum 1), (''z'', JNum 1)]"
  "state (heap merge_world 1) = [(''x'', JNum 2), (''y'', JNum 2)]"
  "state (heap merge_world 2) = [(''x'', JNum 3)]"
  by (simp_all add: merge_world_def after_createUniverses_def manager_eval_defs eval_defs)

lemma map_of_proj:
  "map (\<lambda>(k, d). (k, f d)) m = kvs \<Longrightarrow> map_of kvs k = Some v \<Longrightarrow>
   \<exists>d. map_of m k = Some d \<and> f d = v"
  by (auto simp: map_of_map)

subsection \<open>The loops of createUniverses\<close>

lemma universeConfig_metadata:
  "get_prop (universeConfig cfg b idx now) ''metadata'' =
     Some (JObj (spread (spread [] (props_of_opt (get_prop cfg ''metadata'')))
        [(''batchId'', JStr b), (''creationIndex'', JNum idx), (''createdAt'', JNum now)]))"
  by (simp add: universeConfig_def get_prop_def update_conv')

lemma created_metadata:
  "get_prop (metadata (heap (snd (engine_createUniverse (universeConfig cfg b idx now) w)) (next_ref w)))
     ''creationIndex'' = Some (JNum idx)"
  "get_prop (metadata (heap (snd (engine_createUniverse (universeConfig cfg b idx now) w)) (next_ref w)))
     ''batchId'' = Some (JStr b)"
proof -
  let ?md = "spread (spread [] (props_of_opt (get_prop cfg ''metadata'')))
        [(''batchId'', JStr b), (''creationIndex'', JNum idx), (''createdAt'', JNum now)]"
  have d: "distinct (map fst ?md)" by (rule distinct_spread) (simp add: distinct_spread)
  have m: "metadata (heap (snd (engine_createUniverse (universeConfig cfg b idx now) w)) (next_ref w)) =
      spread ?md [(''createdAt'', JNum (clock w)), (''type'', JStr ''default''),
                  (''stateSize'', stateSize_of (spread [] (props_of
                      (js_or (get_prop (universeConfig cfg b idx now) ''initialState'') (JObj [])))))]"
    unfolding engine_createUniverse_def uuidv4_def alloc_def Let_def HeliosUniverse_def
      updateAverageOperationTime_def
    by (simp add: universeConfig_metadata spread_empty_distinct [OF d] del: spread_Cons)
  have i: "get_prop ?md ''creationIndex'' = Some (JNum idx)" "get_prop ?md ''batchId'' = Some (JStr b)"
    by (simp_all add: get_prop_def update_conv')
  show "get_prop (metadata (heap (snd (engine_createUniverse (universeConfig cfg b idx now) w)) (next_ref w)))
     ''creationIndex'' = Some (JNum idx)"
    unfolding m using i(1) by (simp add: get_prop_def map_of_spread del: spread_Cons)
  show "get_prop (metadata (heap (snd (engine_createUniverse (universeConfig cfg b idx now) w)) (next_ref w)))
     ''batchId'' = Some (JStr b)"
    unfolding m using i(2) by (simp add: get_prop_def map_of_spread del: spread_Cons)
qed

lemma createUniverse_config [simp]:
  "config (snd (engine_createUniverse cfg w)) = config w"
  "clock (snd (engine_createUniverse cfg w)) = clock w"
  by (simp_all add: engine_createUniverse_def uuidv4_def alloc_def Let_def updateAverageOperationTime_def)

lemma created_upto_step:
  assumes "created_upto b w0 m w"
  shows "created_upto b w0 (Suc m) (snd (engine_createUniverse (universeConfig cfg b (int m) now) w))"
proof -
  let ?w' = "snd (engine_createUniverse (universeConfig cfg b (int m) now) w)"
  from assms have n: "next_ref w = next_ref w0 + m" and u: "uuid_count w = uuid_count w0 + m"
    and c: "config w = config w0"
    and old: "\<And>k. k < m \<Longrightarrow>
        uid (heap w (next_ref w0 + k)) = uuid_text (uuid_count w0 + k) \<and>
        get_prop (metadata (heap w (next_ref w0 + k))) ''creationIndex'' = Some (JNum (int k)) \<and>
        get_prop (metadata (heap w (next_ref w0 + k))) ''batchId'' = Some (JStr b) \<and>
        map_of (engine_universes w) (uuid_text (uuid_count w0 + k)) = Some (next_ref w0 + k)"
    by (simp_all add: created_upto_def)
  have "uid (heap ?w' (next_ref w0 + k)) = uuid_text (uuid_count w0 + k) \<and>
        get_prop (metadata (heap ?w' (next_ref w0 + k))) ''creationIndex'' = Some (JNum (int k)) \<and>
        get_prop (metadata (heap ?w' (next_ref w0 + k))) ''batchId'' = Some (JStr b) \<and>
        map_of (engine_universes ?w') (uuid_text (uuid_count w0 + k)) = Some (next_ref w0 + k)"
    if k: "k < Suc m" for k
  proof (cases "k = m")
    case True
    then show ?thesis
      using created_metadata [of cfg b "int m" now w]
      by (simp add: createUniverse_result n [symmetric] u [symmetric] update_conv')
  next
    case False
    with k have km: "k < m" by simp
    then have ne: "next_ref w0 + k \<noteq> next_ref w" by (simp add: n)
    from km have "uuid_text (uuid_count w0 + k) \<noteq> uuid_text (uuid_count w)"
      by (auto simp: u dest: uuid_text_inj)
    with old [OF km] ne show ?thesis
      by (simp add: createUniverse_result update_conv')
  qed
  then show ?thesis
    by (simp add: created_upto_def createUniverse_result n u c)
qed

lemma inner_post:
  assumes "created_upto b w0 (nat (i + j)) w" and "0 \<le> i" and "0 \<le> j"
    and "createUniverses_inner cfg b i n j acc w = (us, w')"
  shows "created_upto b w0 (nat (i + max j n)) w' \<and>
         manager_universes w' = manager_universes w \<and>
         us = acc @ map (\<lambda>k. next_ref w0 + k) [nat (i + j)..<nat (i + max j n)]"
  using assms
proof (induction cfg b i n j acc w rule: createUniverses_inner.induct)
  case (1 cfg b i n j acc w)
  show ?case
  proof (cases "j < n")
    case False
    with "1.prems" show ?thesis
      by (simp add: createUniverses_inner.simps max_def)
  next
    case True
    obtain u w1 where e: "engine_createUniverse (universeConfig cfg b (i + j) (clock w)) w = (u, w1)"
      by (cases "engine_createUniverse (universeConfig cfg b (i + j) (clock w)) w")
    from "1.prems"(2,3) have ij: "i + j = int (nat (i + j))" by simp
    from created_upto_step [OF "1.prems"(1), of cfg "clock w"] e ij
    have c1: "created_upto b w0 (Suc (nat (i + j))) w1" by simp
    from "1.prems"(2,3) have s: "Suc (nat (i + j)) = nat (i + (j + 1))" by simp
    from "1.prems"(1) have nr: "next_ref w = next_ref w0 + nat (i + j)"
      by (simp add: created_upto_def)
    from e have u: "u = next_ref w" and m1: "manager_universes w1 = manager_universes w"
      using createUniverse_result(1,11) [of "universeConfig cfg b (i + j) (clock w)" w] by simp_all
    from True "1.prems"(4) e
    have r: "createUniverses_inner cfg b i n (j + 1) (acc @ [u]) w1 = (us, w')"
      by (subst (asm) createUniverses_inner.simps) simp
    from "1.prems"(3) have j1: "0 \<le> j + 1" by simp
    from "1.IH" [OF True e [symmetric] refl c1 [unfolded s] "1.prems"(2) j1 r]
    have p: "created_upto b w0 (nat (i + max (j + 1) n)) w'"
      and mm: "manager_universes w' = manager_universes w1"
      and us: "us = (acc @ [u]) @ map (\<lambda>k. next_ref w0 + k) [nat (i + (j + 1))..<nat (i + max (j + 1) n)]"
      by simp_all
    from True have mx: "max (j + 1) n = max j n" by simp
    from True "1.prems"(2,3) have lt: "nat (i + j) < nat (i + max j n)" by simp
    have "[nat (i + j)..<nat (i + max j n)] = nat (i + j) # [Suc (nat (i + j))..<nat (i + max j n)]"
      using lt by (simp add: upt_conv_Cons)
    with us show ?thesis
      using p mm m1 by (simp add: mx u nr s [symmetric])
  qed
qed

lemma track_universe_frame [simp]:
  "heap (track_universe b u w) = heap w"
  "next_ref (track_universe b u w) = next_ref w"
  "uuid_count (track_universe b u w) = uuid_count w"
  "config (track_universe b u w) = config w"
  "engine_universes (track_universe b u w) = engine_universes w"
  by (simp_all add: track_universe_def)

lemma track_fold_frame [simp]:
  "heap (fold (track_universe b) us w) = heap w"
  "next_ref (fold (track_universe b) us w) = next_ref w"
  "uuid_count (fold (track_universe b) us w) = uuid_count w"
  "config (fold (track_universe b) us w) = config w"
  "engine_universes (fold (track_universe b) us w) = engine_universes w"
  by (induction us arbitrary: w; simp)+

lemma track_fold_other:
  "key \<notin> (\<lambda>u. uid (heap w u)) ` set us \<Longrightarrow>
   map_of (manager_universes (fold (track_universe b) us w)) key = map_of (manager_universes w) key"
proof (induction us arbitrary: w)
  case Nil
  then show ?case by simp
next
  case (Cons u us)
  from Cons.prems have "key \<notin> (\<lambda>u. uid (heap (track_universe b u w) u)) ` set us"
    and "key \<noteq> uid (heap w u)" by auto
  with Cons.IH [of "track_universe b u w"] show ?case
    by (simp add: track_universe_def update_conv')
qed

lemma track_fold_registered:
  assumes "\<forall>u\<in>set us. \<forall>u'\<in>set us. uid (heap w u) = uid (heap w u') \<longrightarrow> u = u'"
    and "u \<in> set us"
  shows "\<exists>d. map_of (manager_universes (fold (track_universe b) us w)) (uid (heap w u)) = Some d \<and>
             ud_universe d = u \<and> ud_batchId d = Some b"
  using assms
proof (induction us arbitrary: w)
  case Nil
  then show ?case by simp
next
  case (Cons x xs)
  let ?w1 = "track_universe b x w"
  from Cons.prems(1)
  have inj: "\<forall>u\<in>set xs. \<forall>u'\<in>set xs. uid (heap ?w1 u) = uid (heap ?w1 u') \<longrightarrow> u = u'"
    by simp
  show ?case
  proof (cases "u \<in> set xs")
    case True
    from Cons.IH [OF inj True] show ?thesis by simp
  next
    case False
    with Cons.prems(2) have ux: "u = x" by simp
    from False Cons.prems(1) ux have "uid (heap ?w1 x) \<notin> (\<lambda>u. uid (heap ?w1 u)) ` set xs"
      by auto
    from track_fold_other [OF this, of b] show ?thesis
      by (simp add: ux) (simp add: track_universe_def update_conv')
  qed
qed

lemma in_block:
  "u \<in> set (map (\<lambda>k. c + k) [m..<m']) \<longleftrightarrow> (\<exists>k. m \<le> k \<and> k < m' \<and> u = c + (k::nat))"
  unfolding set_map set_upt image_def by auto

lemma track_block:
  assumes c: "created_upto b w0 m' w" and r: "registered_upto b w0 m w" and le: "m \<le> m'"
  shows "created_upto b w0 m' (fold (track_universe b) (map (\<lambda>k. next_ref w0 + k) [m..<m']) w) \<and>
         registered_upto b w0 m' (fold (track_universe b) (map (\<lambda>k. next_ref w0 + k) [m..<m']) w)"
proof -
  let ?us = "map (\<lambda>k. next_ref w0 + k) [m..<m']"
  let ?w' = "fold (track_universe b) ?us w"
  from c have uidk: "\<And>k. k < m' \<Longrightarrow> uid (heap w (next_ref w0 + k)) = uuid_text (uuid_count w0 + k)"
    by (simp add: created_upto_def)
  have c': "created_upto b w0 m' ?w'"
    using c by (simp add: created_upto_def)
  have inj: "\<forall>u\<in>set ?us. \<forall>u'\<in>set ?us. uid (heap w u) = uid (heap w u') \<longrightarrow> u = u'"
  proof (intro ballI impI)
    fix u u'
    assume u: "u \<in> set ?us" and u': "u' \<in> set ?us" and e: "uid (heap w u) = uid (heap w u')"
    from u obtain k where k: "u = next_ref w0 + k" "k < m'"
      unfolding in_block by blast
    from u' obtain k' where k': "u' = next_ref w0 + k'" "k' < m'"
      unfolding in_block by blast
    from e uidk [OF k(2)] uidk [OF k'(2)] have "uuid_text (uuid_count w0 + k) = uuid_text (uuid_count w0 + k')"
      by (simp add: k k')
    then have "k = k'" by (auto dest: uuid_text_inj)
    then show "u = u'" by (simp add: k k')
  qed
  have "\<exists>d. map_of (manager_universes ?w') (uuid_text (uuid_count w0 + k)) = Some d \<and>
            ud_universe d = next_ref w0 + k \<and> ud_batchId d = Some b" if k: "k < m'" for k
  proof (cases "k < m")
    case True
    have "uuid_text (uuid_count w0 + k) \<notin> (\<lambda>u. uid (heap w u)) ` set ?us"
    proof
      assume "uuid_text (uuid_count w0 + k) \<in> (\<lambda>u. uid (heap w u)) ` set ?us"
      then obtain u where "u \<in> set ?us" and uu: "uuid_text (uuid_count w0 + k) = uid (heap w u)"
        by (rule imageE)
      then obtain k' where "m \<le> k'" "k' < m'"
        and "uuid_text (uuid_count w0 + k) = uid (heap w (next_ref w0 + k'))"
        unfolding in_block by blast
      with uidk [of k'] have "uuid_count w0 + k = uuid_count w0 + k'"
        by (auto dest: uuid_text_inj)
      with True \<open>m \<le> k'\<close> show False by simp
    qed
    from track_fold_other [OF this, of b] r True show ?thesis
      by (simp add: registered_upto_def)
  next
    case False
    with k have "next_ref w0 + k \<in> set ?us" unfolding in_block by auto
    from track_fold_registered [OF inj this, of b] uidk [OF k] show ?thesis by simp
  qed
  with c' show ?thesis by (simp add: registered_upto_def)
qed

lemma upt_split: "a \<le> b \<Longrightarrow> [0..<a] @ [a..<b] = [0..<b]"
  by (metis le_add_diff_inverse upt_add_eq_append zero_le)

lemma outer_post:
  assumes bsz: "0 < bsz"
  shows "0 \<le> i \<Longrightarrow> 0 \<le> count \<Longrightarrow>
         created_upto b w0 (nat (min i count)) w \<Longrightarrow>
         registered_upto b w0 (nat (min i count)) w \<Longrightarrow>
         us = map (\<lambda>k. next_ref w0 + k) [0..<nat (min i count)] \<Longrightarrow>
         \<exists>us' w'. createUniverses_outer cfg b count bsz i us w = Some (us', w') \<and>
            created_upto b w0 (nat count) w' \<and> registered_upto b w0 (nat count) w' \<and>
            us' = map (\<lambda>k. next_ref w0 + k) [0..<nat count]"
proof (induction "nat (count - i)" arbitrary: i us w rule: less_induct)
  case less
  show ?case
  proof (cases "i < count")
    case False
    then have "min i count = count" by simp
    with less.prems False show ?thesis
      by (subst createUniverses_outer.simps) simp
  next
    case True
    define n where "n = min bsz (count - i)"
    from True bsz have n0: "0 < n" and mi: "min i count = i" by (simp_all add: n_def)
    obtain chunk w1 where inner: "createUniverses_inner cfg b i n 0 [] w = (chunk, w1)"
      by (cases "createUniverses_inner cfg b i n 0 [] w")
    from less.prems(3) have c0: "created_upto b w0 (nat (i + 0)) w" by (simp add: mi)
    from inner_post [OF c0 less.prems(1) order_refl inner] n0
    have c1: "created_upto b w0 (nat (i + n)) w1"
      and m1: "manager_universes w1 = manager_universes w"
      and ch: "chunk = map (\<lambda>k. next_ref w0 + k) [nat i..<nat (i + n)]"
      by (simp_all add: max_def)
    from less.prems(4) m1 have r1: "registered_upto b w0 (nat i) w1"
      by (simp add: registered_upto_def mi)
    from less.prems(1) n0 have le: "nat i \<le> nat (i + n)" by simp
    let ?w2 = "fold (track_universe b) chunk w1"
    from track_block [OF c1 r1 le]
    have c2: "created_upto b w0 (nat (i + n)) ?w2" and r2: "registered_upto b w0 (nat (i + n)) ?w2"
      by (simp_all add: ch)
    have mn: "min (i + bsz) count = i + n" by (simp add: n_def)
    have us2: "us @ chunk = map (\<lambda>k. next_ref w0 + k) [0..<nat (min (i + bsz) count)]"
      using upt_split [OF le] by (simp add: less.prems(5) mi ch mn map_append [symmetric]
          del: map_append)
    from bsz True have dec: "nat (count - (i + bsz)) < nat (count - i)" by simp
    from less.prems(1) bsz have i2: "0 \<le> i + bsz" by simp
    from less.hyps [OF dec i2 less.prems(2) c2 [folded mn] r2 [folded mn] us2]
    obtain us' w' where "createUniverses_outer cfg b count bsz (i + bsz) (us @ chunk) ?w2 = Some (us', w')"
      and "created_upto b w0 (nat count) w'" and "registered_upto b w0 (nat count) w'"
      and "us' = map (\<lambda>k. next_ref w0 + k) [0..<nat count]" by blast
    with True inner show ?thesis
      by (subst createUniverses_outer.simps) (simp add: Let_def n_def)
  qed
qed

subsection \<open>Batches of operations\<close>

lemma start_all_Cons:
  "fst (start_all (op # ops) w) = fst (start_of op w) # fst (start_all ops (snd (start_of op w)))"
  "snd (start_all (op # ops) w) = snd (start_all ops (snd (start_of op w)))"
  by (simp_all add: split_def Let_def start_of_def)

lemma start_all_length: "length (fst (start_all ops w)) = length ops"
  by (induction ops arbitrary: w) (simp_all add: start_all_Cons del: start_all.simps(2))

lemma start_all_nth:
  "i < length ops \<Longrightarrow>
   fst (start_all ops w) ! i = fst (start_of (ops ! i) (snd (start_all (take i ops) w)))"
proof (induction ops arbitrary: w i)
  case Nil
  then show ?case by simp
next
  case (Cons op ops)
  show ?case
  proof (cases i)
    case 0
    then show ?thesis by (simp add: start_all_Cons del: start_all.simps(2))
  next
    case (Suc j)
    with Cons.prems have "j < length ops" by simp
    from Cons.IH [OF this] show ?thesis
      by (simp add: Suc start_all_Cons del: start_all.simps(2))
  qed
qed

lemma finish_all_Inl:
  "finish_all n ((op, Inl (Error message)) # rest) w =
     (Failed message n # fst (finish_all (Suc n) rest w), snd (finish_all (Suc n) rest w))"
  by (simp add: split_def Let_def)

lemma finish_all_Inr:
  "finish_all n ((op, Inr started) # rest) w =
     (Completed (fst (finish_of op started w))
        # fst (finish_all (Suc n) rest (snd (finish_of op started w))),
      snd (finish_all (Suc n) rest (snd (finish_of op started w))))"
  by (simp add: split_def finish_of_def Let_def)

lemma finish_of_outcome:
  "out_operationId (fst (finish_of op started w)) = fst started"
  "out_result (fst (finish_of op started w)) = snd started"
  by (simp_all add: finish_of_def performOperation_finish_def Let_def)

lemma finish_all_length: "length (fst (finish_all n xs w)) = length xs"
proof (induction xs arbitrary: n w)
  case Nil
  then show ?case by simp
next
  case (Cons x xs)
  obtain op s where x: "x = (op, s)" by (cases x)
  show ?case
  proof (cases s)
    case (Inl e)
    then obtain message where "s = Inl (Error message)" by (cases e) simp
    with Cons.IH show ?thesis by (simp add: x finish_all_Inl del: finish_all.simps)
  next
    case (Inr started)
    with Cons.IH show ?thesis by (simp add: x finish_all_Inr del: finish_all.simps)
  qed
qed

lemma finish_all_nth:
  "i < length xs \<Longrightarrow>
   (case snd (xs ! i) of
      Inl (Error message) \<Rightarrow> fst (finish_all n xs w) ! i = Failed message (n + i)
    | Inr started \<Rightarrow>
        (\<exists>outcome. fst (finish_all n xs w) ! i = Completed outcome \<and>
           out_operationId outcome = fst started \<and> out_result outcome = snd started))"
proof (induction xs arbitrary: n w i)
  case Nil
  then show ?case by simp
next
  case (Cons x xs)
  obtain op s where x: "x = (op, s)" by (cases x)
  show ?case
  proof (cases i)
    case 0
    show ?thesis
    proof (cases s)
      case (Inl e)
      then obtain message where "s = Inl (Error message)" by (cases e) simp
      then show ?thesis by (simp add: 0 x finish_all_Inl del: finish_all.simps)
    next
      case (Inr started)
      then show ?thesis
        by (simp add: 0 x finish_all_Inr finish_of_outcome del: finish_all.simps)
    qed
  next
    case (Suc j)
    with Cons.prems have j: "j < length xs" by simp
    show ?thesis
    proof (cases s)
      case (Inl e)
      then obtain message where "s = Inl (Error message)" by (cases e) simp
      with Cons.IH [OF j, of "Suc n" w] show ?thesis
        by (auto simp add: Suc x finish_all_Inl simp del: finish_all.simps split: sum.splits error.splits)
    next
      case (Inr started)
      with Cons.IH [OF j, of "Suc n" "snd (finish_of op started w)"] show ?thesis
        by (auto simp add: Suc x finish_all_Inr simp del: finish_all.simps split: sum.splits error.splits)
    qed
  qed
qed

lemma keys_grow_refl [simp]: "keys_grow w w"
  by (simp add: keys_grow_def)

lemma keys_grow_trans:
  assumes "keys_grow w w1" and "keys_grow w1 w2"
  shows "keys_grow w w2"
proof -
  from assms have c: "uuid_count w \<le> uuid_count w1" "uuid_count w1 \<le> uuid_count w2"
    and s1: "fst ` set (manager_universes w) \<subseteq> fst ` set (manager_universes w1)"
    and s2: "fst ` set (manager_universes w1) \<subseteq> fst ` set (manager_universes w2)"
    and g1: "fst ` set (manager_universes w1) \<subseteq>
        fst ` set (manager_universes w) \<union> {uuid_text n |n. uuid_count w \<le> n}"
    and g2: "fst ` set (manager_universes w2) \<subseteq>
        fst ` set (manager_universes w1) \<union> {uuid_text n |n. uuid_count w1 \<le> n}"
    by (simp_all add: keys_grow_def)
  have g3: "{uuid_text n |n. uuid_count w1 \<le> n} \<subseteq> {uuid_text n |n. uuid_count w \<le> n}"
  proof
    fix x assume "x \<in> {uuid_text n |n. uuid_count w1 \<le> n}"
    then obtain n where "x = uuid_text n" and "uuid_count w1 \<le> n" by blast
    with c(1) have "x = uuid_text n \<and> uuid_count w \<le> n" by simp
    then show "x \<in> {uuid_text n |n. uuid_count w \<le> n}" by blast
  qed
  show ?thesis
    unfolding keys_grow_def
  proof (intro conjI)
    show "uuid_count w \<le> uuid_count w2" using c by simp
    show "fst ` set (manager_universes w) \<subseteq> fst ` set (manager_universes w2)"
      using s1 s2 by (rule subset_trans)
    show "fst ` set (manager_universes w2) \<subseteq>
        fst ` set (manager_universes w) \<union> {uuid_text n |n. uuid_count w \<le> n}"
    proof
      fix x assume "x \<in> fst ` set (manager_universes w2)"
      with g2 have "x \<in> fst ` set (manager_universes w1) \<or> x \<in> {uuid_text n |n. uuid_count w1 \<le> n}"
        by blast
      with g1 g3 show "x \<in> fst ` set (manager_universes w) \<union> {uuid_text n |n. uuid_count w \<le> n}"
        by blast
    qed
  qed
qed

lemma manager_frame:
  "manager_universes (snd (clone this cfg w)) = manager_universes w"
  "manager_universes (snd (createSnapshot this md w)) = manager_universes w"
  "uuid_count (snd (createSnapshot this md w)) = Suc (uuid_count w)"
  "manager_universes (snd (updateState this upd w)) = manager_universes w"
  by (simp_all add: clone_def createSnapshot_def updateState_def uuidv4_def alloc_def Let_def)

lemma keys_grow_same:
  "manager_universes w' = manager_universes w \<Longrightarrow> uuid_count w \<le> uuid_count w' \<Longrightarrow> keys_grow w w'"
  by (simp add: keys_grow_def)

lemma keys_grow_add:
  "manager_universes w' = AList.update (uuid_text (uuid_count w)) d (manager_universes w) \<Longrightarrow>
   uuid_count w \<le> uuid_count w' \<Longrightarrow> keys_grow w w'"
  by (auto simp: keys_grow_def dom_update)

lemma createSnapshot_keys: "keys_grow w (snd (manager_createSnapshot u params w))"
  by (rule keys_grow_same) (simp_all add: manager_createSnapshot_def split_def Let_def manager_frame)

lemma cloneUniverse_keys: "keys_grow w (snd (manager_cloneUniverse u params w))"
  by (rule keys_grow_add) (simp_all add: manager_cloneUniverse_def split_def Let_def manager_frame clone_result)

lemma updateUniverse_keys: "keys_grow w (snd (updateUniverse u params w))"
  by (rule keys_grow_same)
     (simp_all add: updateUniverse_def split_def Let_def manager_frame updateState_frame
        split: option.splits)

lemma keys_grow_insert:
  "fst ` set (manager_universes w') = insert (uuid_text (uuid_count w)) (fst ` set (manager_universes w)) \<Longrightarrow>
   uuid_count w \<le> uuid_count w' \<Longrightarrow> keys_grow w w'"
  by (auto simp: keys_grow_def)

lemma branchUniverse_keys: "keys_grow w (snd (branchUniverse u params w))"
  by (rule keys_grow_insert)
     (simp_all add: branchUniverse_def split_def Let_def manager_frame clone_result updateState_frame
        dom_update split: option.splits)

lemma mergeUniverse_world:
  "snd (mergeUniverse t params w) = w \<or>
   (\<exists>ms. snd (mergeUniverse t params w) = snd (updateState t ms w))"
proof (cases "case get_prop params ''sourceIds'' of None \<Rightarrow> JArr [] | Some v \<Rightarrow> v")
  case (JArr ids)
  show ?thesis
  proof (cases "length ids = 0")
    case True
    with JArr show ?thesis by (simp add: mergeUniverse_def Let_def)
  next
    case False
    show ?thesis
    proof (cases "lookup_sources ids w")
      case (Inl e)
      with JArr False show ?thesis by (simp add: mergeUniverse_def Let_def)
    next
      case (Inr us)
      with JArr False show ?thesis
        by (auto simp: mergeUniverse_def Let_def split_def)
    qed
  qed
qed (simp_all add: mergeUniverse_def Let_def)

lemma mergeUniverse_keys: "keys_grow w (snd (mergeUniverse u params w))"
  using mergeUniverse_world [of u params w]
  by (auto intro!: keys_grow_same simp: manager_frame updateState_frame)

lemma analyzeUniverse_keys: "keys_grow w (snd (analyzeUniverse u params w))"
  by (simp add: analyzeUniverse_def Let_def split: option.splits)

lemma dispatch_keys: "keys_grow w (snd (dispatch operation u params w))"
  by (simp add: dispatch_def createSnapshot_keys cloneUniverse_keys updateUniverse_keys
      branchUniverse_keys mergeUniverse_keys analyzeUniverse_keys)

lemma start_of_keys: "keys_grow w (snd (start_of op w))"
proof (cases "map_of (manager_universes w) (bo_universeId op)")
  case None
  then show ?thesis by (simp add: start_of_def performOperation_start_def)
next
  case (Some d)
  let ?w1 = "snd (uuidv4 w)"
  have "keys_grow w ?w1" by (simp add: keys_grow_def uuidv4_def)
  moreover have "keys_grow ?w1 (snd (dispatch (bo_operation op) (ud_universe d) (bo_params op) ?w1))"
    by (rule dispatch_keys)
  moreover have "snd (start_of op w) = snd (dispatch (bo_operation op) (ud_universe d) (bo_params op) ?w1)"
    using Some by (simp add: start_of_def performOperation_start_def split_def Let_def
        split: sum.splits prod.splits)
  ultimately show ?thesis by (simp add: keys_grow_trans)
qed

lemma start_all_keys: "keys_grow w (snd (start_all ops w))"
proof (induction ops arbitrary: w)
  case Nil
  then show ?case by simp
next
  case (Cons op ops)
  from start_of_keys [of w op] Cons [of "snd (start_of op w)"] show ?case
    by (simp add: start_all_Cons keys_grow_trans del: start_all.simps(2))
qed

lemma start_of_not_found:
  "map_of (manager_universes w) (bo_universeId op) = None \<Longrightarrow>
   start_of op w = (Inl (Error (''Universe '' @ bo_universeId op @ '' not found'')), w)"
  by (simp add: start_of_def performOperation_start_def)

lemma dispatch_always_succeeds:
  "operation \<in> {''snapshot'', ''clone'', ''branch''} \<Longrightarrow>
   \<exists>r. fst (dispatch operation u params w) = Inr r"
  by (auto simp: dispatch_def split_def Let_def
        manager_createSnapshot_def manager_cloneUniverse_def branchUniverse_def)

lemma start_of_always_succeeds:
  assumes "map_of (manager_universes w) (bo_universeId op) \<noteq> None"
    and "bo_operation op \<in> {''snapshot'', ''clone'', ''branch''}"
  shows "\<exists>started. fst (start_of op w) = Inr started"
proof -
  from assms(1) obtain d where d: "map_of (manager_universes w) (bo_universeId op) = Some d" by auto
  from dispatch_always_succeeds [OF assms(2)]
  obtain r where "fst (dispatch (bo_operation op) (ud_universe d) (bo_params op) (snd (uuidv4 w))) = Inr r"
    by blast
  with d show ?thesis
    by (simp add: start_of_def performOperation_start_def split_def Let_def split: prod.splits)
qed

lemma five_operations_eval:
  "map item_summary (br_results (fst (processBatchOperation five_operations lineage_A))) =
     [(''snapshot'', None), (''update'', None),
      (''Universe no-such-universe not found'', Some 2), (''branch'', None), (''merge'', None)]"
  by (simp add: five_operations_def processBatchOperation_def lineage_A_def manager_eval_defs eval_defs
      createSnapshot_def)

section \<open>The claims\<close>

text \<open>
  C1. Cloning a universe and then updating the clone, any number of times, never changes
  the state of the source: looking the source up afterwards gives the same object with
  the state it had, and looking the clone up gives an object of its own whose state is
  the source's state overlaid with the update. The witness is the scenario: A is created
  with \<^verbatim>\<open>{x: 1}\<close>, cloned into B, B is updated with \<^verbatim>\<open>{x: 2}\<close>; then A has \<open>x = 1\<close> and B has
  \<open>x = 2\<close>.
\<close>

theorem clone_update_isolation:
  assumes "engine_wf w"
    and "engine_getUniverse a w = Some ra"
    and "engine_cloneUniverse a cfg w = Inr (rb, w1)"
  shows "engine_getUniverse a (run_updates rb upds w1) = Some ra \<and>
         state (heap (run_updates rb upds w1) ra) = state (heap w ra) \<and>
         engine_getUniverse (uid (heap w1 rb)) (run_updates rb upds w1) = Some rb \<and>
         rb \<noteq> ra \<and>
         state (heap (run_updates rb [upd] w1) rb) =
           spread (spread [] (spread [] (state (heap w ra)))) (props_of upd)"
proof -
  from assms(2) have m: "map_of (engine_universes w) a = Some ra"
    by (simp add: engine_getUniverse_def)
  from engine_wfD [OF assms(1) m] have ra: "ra < next_ref w" and a: "a \<noteq> uuid_text (uuid_count w)"
    by simp_all
  obtain c w' where cl: "clone ra cfg w = (c, w')" by (cases "clone ra cfg w")
  have c: "c = next_ref w" using clone_result(1) [of ra cfg w] cl by simp
  have w': "w' = snd (clone ra cfg w)" using cl by simp
  from assms(3) m cl have rb': "rb = c"
    and w1: "w1 = updateAverageOperationTime (w'\<lparr>engine_universes :=
        AList.update (uid (heap w' c)) c (engine_universes w'),
        metrics := (metrics w')\<lparr>totalUniverses := totalUniverses (metrics w') + 1,
                                 activeUniverses := activeUniverses (metrics w') + 1\<rparr>\<rparr>)"
    by (auto simp: engine_cloneUniverse_def Let_def)
  from rb' c have rb: "rb = next_ref w" by simp
  have h1: "heap w1 = heap (snd (clone ra cfg w))"
    and e1: "engine_universes w1 =
      AList.update (uuid_text (uuid_count w)) (next_ref w) (engine_universes w)"
    by (simp_all add: w1 updateAverageOperationTime_def w' c clone_result)
  from ra rb have ne: "rb \<noteq> ra" by simp
  have "engine_getUniverse a (run_updates rb upds w1) = Some ra"
    using a m by (simp add: engine_getUniverse_def run_updates_frame e1 update_conv')
  moreover have "state (heap (run_updates rb upds w1) ra) = state (heap w ra)"
    using ne ra rb by (simp add: run_updates_frame h1 clone_result)
  moreover have "engine_getUniverse (uid (heap w1 rb)) (run_updates rb upds w1) = Some rb"
    by (simp add: engine_getUniverse_def run_updates_frame e1 h1 rb clone_result update_conv')
  moreover have "state (heap (run_updates rb [upd] w1) rb) =
      spread (spread [] (spread [] (state (heap w ra)))) (props_of upd)"
    by (simp add: updateState_result h1 rb clone_result)
  ultimately show ?thesis using ne by simp
qed

theorem clone_update_isolation_witness:
  "engine_getUniverse ''uuid-0'' scenario_C = Some 0 \<and>
   get_prop (state (heap scenario_C 0)) ''x'' = Some (JNum 1) \<and>
   engine_getUniverse ''uuid-1'' scenario_C = Some 1 \<and>
   get_prop (state (heap scenario_C 1)) ''x'' = Some (JNum 2)"
proof -
  have g: "engine_getUniverse ''uuid-0'' (snd scenario_A) = Some 0"
    by (simp add: engine_getUniverse_def scenario_A_eval)
  have b: "engine_cloneUniverse ''uuid-0'' [] (snd scenario_A) = Inr (fst scenario_B, snd scenario_B)"
    by (simp add: scenario_B_Inr)
  have c: "scenario_C = run_updates (fst scenario_B) [JObj [(''x'', JNum 2)]] (snd scenario_B)"
    by (simp add: scenario_C_def)
  have fb: "fst scenario_B = Suc 0" and ub: "uid (heap (snd scenario_B) (Suc 0)) = ''uuid-1''"
    by (simp_all add: scenario_B_def scenario_A_def eval_defs)
  note t = clone_update_isolation [OF scenario_A_wf g b, of "[JObj [(''x'', JNum 2)]]" "JObj [(''x'', JNum 2)]",
      folded c]
  from t show ?thesis
    by (simp add: fb ub scenario_A_eval get_prop_def)
qed

text \<open>
  C2. A snapshot holds a copy of the universe's state at capture time: after any number
  of later calls of \<^verbatim>\<open>updateState\<close> on the universe, the snapshot log still ends with the
  captured snapshot, whose state is the state the universe had when it was taken.
\<close>

theorem snapshot_isolation:
  assumes "createSnapshot this md w = (snap, w1)"
  shows "snapshots (heap (run_updates this upds w1) this) = snapshots (heap w this) @ [snap] \<and>
         snapshot_state snap = spread [] (state (heap w this)) \<and>
         (distinct (map fst (state (heap w this))) \<longrightarrow> snapshot_state snap = state (heap w this))"
proof -
  from assms have s: "snap = fst (createSnapshot this md w)"
    and w1: "w1 = snd (createSnapshot this md w)" by simp_all
  show ?thesis
    by (simp add: s w1 run_updates_frame createSnapshot_result spread_empty_distinct)
qed

theorem snapshot_isolation_witness:
  "state (heap (run_updates 0 [JObj [(''x'', JNum 2)], JObj [(''y'', JNum 3)]] (snd scenario_S)) 0)
     = [(''x'', JNum 2), (''y'', JNum 3)] \<and>
   map snapshot_state
     (snapshots (heap (run_updates 0 [JObj [(''x'', JNum 2)], JObj [(''y'', JNum 3)]] (snd scenario_S)) 0))
     = [[(''x'', JNum 1)]]"
proof -
  have e: "createSnapshot 0 [(''name'', JStr ''first'')] (snd scenario_A) = (fst scenario_S, snd scenario_S)"
    by (simp add: scenario_S_def)
  have d: "distinct (map fst (state (heap (snd scenario_A) 0)))"
    by (simp add: scenario_A_eval)
  have s0: "snapshots (heap (snd scenario_A) 0) = []"
    by (simp add: scenario_A_def eval_defs)
  have "state (heap (run_updates 0 [JObj [(''x'', JNum 2)], JObj [(''y'', JNum 3)]] (snd scenario_S)) 0)
     = [(''x'', JNum 2), (''y'', JNum 3)]"
    by (simp add: updateState_result createSnapshot_result scenario_S_def scenario_A_eval)
  then show ?thesis
    using snapshot_isolation [OF e, of "[JObj [(''x'', JNum 2)], JObj [(''y'', JNum 3)]]"] d
    by (simp add: s0 scenario_A_eval)
qed

text \<open>
  C3, as stated, fails: \<^verbatim>\<open>createUniverse\<close> has no capacity check. With one live universe
  and \<^verbatim>\<open>maxUniverses = 1\<close>, a further create succeeds and the store holds two.
\<close>

theorem create_at_capacity_counterexample:
  "int (length (engine_universes full_store)) = maxUniverses full_store \<and>
   engine_universes (snd (engine_createUniverse [] full_store)) = [(''uuid-0'', 0), (''uuid-1'', 1)] \<and>
   maxUniverses (snd (engine_createUniverse [] full_store)) = 1"
  by (simp add: full_store_eval createUniverse_result uuid_text_def digit_char_def)

text \<open>
  C3, amended. \<^verbatim>\<open>createUniverse\<close> never fails and always adds the universe it creates,
  whatever \<^verbatim>\<open>maxUniverses\<close> is: the number of live universes grows by one, the new
  universe is found under its identifier, and \<^verbatim>\<open>maxUniverses\<close> is left as it was.
\<close>

theorem createUniverse_no_capacity_check:
  assumes "engine_wf w"
  shows "length (engine_universes (snd (engine_createUniverse cfg w))) = Suc (length (engine_universes w)) \<and>
         activeUniverses (metrics (snd (engine_createUniverse cfg w))) = activeUniverses (metrics w) + 1 \<and>
         engine_getUniverse (uid (heap (snd (engine_createUniverse cfg w)) (fst (engine_createUniverse cfg w))))
            (snd (engine_createUniverse cfg w)) = Some (fst (engine_createUniverse cfg w)) \<and>
         maxUniverses (snd (engine_createUniverse cfg w)) = maxUniverses w \<and>
         engine_wf (snd (engine_createUniverse cfg w))"
proof -
  let ?w' = "snd (engine_createUniverse cfg w)"
  from engine_wf_fresh [OF assms]
  have e: "engine_universes ?w' = engine_universes w @ [(uuid_text (uuid_count w), next_ref w)]"
    by (simp add: createUniverse_result update_fresh)
  have "engine_wf ?w'"
    using assms unfolding engine_wf_def e
    by (auto simp: createUniverse_result list_all_iff)
  moreover have "length (engine_universes ?w') = Suc (length (engine_universes w))"
    by (simp add: e)
  ultimately show ?thesis
    by (simp add: createUniverse_result engine_getUniverse_def update_conv')
qed

theorem createUniverse_no_capacity_check_witness:
  "int (length (engine_universes full_store)) = maxUniverses full_store \<and>
   int (length (engine_universes (snd (engine_createUniverse [] full_store)))) = maxUniverses full_store + 1"
proof -
  have "engine_wf full_store"
    by (simp add: engine_wf_def full_store_eval uuid_text_def digit_char_def)
  from createUniverse_no_capacity_check [OF this, of "[]"] show ?thesis
    by (simp add: full_store_eval)
qed

text \<open>
  C4, as stated, fails: the second \<^verbatim>\<open>updateState\<close> on a clone reports a copy-on-write break
  again.
\<close>

theorem second_update_cow_counterexample:
  "cowTriggered (fst (updateState (fst scenario_B) (JObj [(''x'', JNum 2)]) (snd scenario_B))) \<and>
   cowTriggered (fst (updateState (fst scenario_B) (JObj [(''x'', JNum 3)]) scenario_C))"
  by (simp add: scenario_C_def updateState_result updateState_frame)
     (simp add: scenario_B_def scenario_A_def eval_defs)

text \<open>
  C4, amended. \<^verbatim>\<open>updateState\<close> reports \<^verbatim>\<open>cowTriggered\<close> exactly when the universe's
  \<^verbatim>\<open>parentId\<close> is not \<^verbatim>\<open>null\<close>, before and after any number of updates: every update of a
  universe produced by \<^verbatim>\<open>clone\<close> reports it, the first and every later one, and no update
  of a universe created without a \<^verbatim>\<open>parentId\<close> does.
\<close>

theorem cowTriggered_iff_parentId:
  "cowTriggered (fst (updateState this upd (run_updates this upds w))) = (parentId (heap w this) \<noteq> JNull) \<and>
   cowTriggered (fst (updateState (fst (clone this cfg w)) upd
      (run_updates (fst (clone this cfg w)) upds (snd (clone this cfg w))))) \<and>
   (get_prop cfg ''parentId'' = None \<longrightarrow>
      \<not> cowTriggered (fst (updateState (fst (engine_createUniverse cfg w)) upd
          (run_updates (fst (engine_createUniverse cfg w)) upds (snd (engine_createUniverse cfg w))))))"
  by (simp add: updateState_result run_updates_frame clone_result createUniverse_result)

theorem cowTriggered_iff_parentId_witness:
  "cowTriggered (fst (updateState 0 (JObj [(''x'', JNum 5)]) (snd scenario_A))) = False \<and>
   \<not> cowTriggered (fst (updateState 0 (JObj [(''y'', JNum 2)])
        (run_updates 0 [JObj [(''x'', JNum 5)]] (snd scenario_A))))"
  using cowTriggered_iff_parentId [of 0 "JObj [(''y'', JNum 2)]" "[JObj [(''x'', JNum 5)]]" "new_world None 100"
      "[(''initialState'', JObj [(''x'', JNum 1)])]"]
  by (simp add: scenario_A_def [symmetric] scenario_A_eval get_prop_def updateState_result
      run_updates_frame) (simp add: scenario_A_def eval_defs)

text \<open>
  C10. After \<^verbatim>\<open>createUniverse\<close>, \<^verbatim>\<open>clone\<close> and \<^verbatim>\<open>updateState\<close> the \<^verbatim>\<open>stateSize\<close> recorded in the
  metadata of the universe created, cloned or updated is the length of the
  serialisation of its state, and the \<^verbatim>\<open>stateSize\<close> of a new snapshot is that of the state
  it captured. As an invariant: in the initial state of the program every universe and
  every snapshot records the size of the state it holds, and the four operations keep
  it so for all of them.
\<close>

theorem stateSize_invariant:
  "size_ok (heap (snd (engine_createUniverse cfg w)) (fst (engine_createUniverse cfg w))) \<and>
   size_ok (heap (snd (clone this ccfg w)) (fst (clone this ccfg w))) \<and>
   size_ok (heap (snd (updateState this upd w)) this) \<and>
   get_prop (snapshot_metadata (fst (createSnapshot this md w))) ''stateSize'' =
     Some (stateSize_of (state (heap w this))) \<and>
   sizes_ok (new_world mx depth) \<and>
   (sizes_ok w \<longrightarrow>
      sizes_ok (snd (engine_createUniverse cfg w)) \<and>
      sizes_ok (snd (clone this ccfg w)) \<and>
      sizes_ok (snd (updateState this upd w)) \<and>
      sizes_ok (snd (createSnapshot this md w)) \<and>
      snapshot_size_ok (fst (createSnapshot this md w)))"
proof -
  have ok: "size_ok (HeliosUniverse now c)" for now c
    using universe_ok_HeliosUniverse [of now c] by (simp add: universe_ok_def)
  have sc: "size_ok (u\<lparr>children := c\<rparr>) = size_ok u" for u :: universe and c
    by (simp add: size_ok_def)
  have 1: "size_ok (heap (snd (engine_createUniverse cfg w)) (fst (engine_createUniverse cfg w)))"
    by (simp add: engine_createUniverse_def uuidv4_def alloc_def Let_def
        updateAverageOperationTime_def ok)
  have 2: "size_ok (heap (snd (clone this ccfg w)) (fst (clone this ccfg w)))"
    by (simp add: clone_def uuidv4_def alloc_def Let_def ok sc)
  have 3: "size_ok (heap (snd (updateState this upd w)) this)"
    by (simp add: updateState_def Let_def size_ok_def get_prop_def update_conv' stateSize_of_def)
  have 4: "get_prop (snapshot_metadata (fst (createSnapshot this md w))) ''stateSize'' =
     Some (stateSize_of (state (heap w this)))"
    by (simp add: createSnapshot_def uuidv4_def Let_def get_prop_def update_conv')
  have 5: "snapshot_size_ok (fst (createSnapshot this md w))" if "sizes_ok w"
  proof -
    from that have "distinct (map fst (state (heap w this)))"
      by (simp add: sizes_ok_def universe_ok_def)
    then show ?thesis
      by (simp add: snapshot_size_ok_def createSnapshot_def uuidv4_def Let_def get_prop_def
          update_conv' spread_empty_distinct)
  qed
  from 1 2 3 4 5 show ?thesis
    by (simp add: sizes_ok_new_world sizes_ok_createUniverse sizes_ok_clone sizes_ok_updateState
        sizes_ok_createSnapshot)
qed

theorem stateSize_invariant_witness:
  "sizes_ok (snd scenario_A) \<and> sizes_ok (snd scenario_B) \<and> sizes_ok scenario_C \<and>
   get_prop (metadata (heap scenario_C 1)) ''stateSize'' = Some (JNum 7)"
proof -
  have a: "sizes_ok (snd scenario_A)"
    unfolding scenario_A_def
    using stateSize_invariant [where w = "new_world None 100" and mx = None and depth = 100
        and cfg = "[(''initialState'', JObj [(''x'', JNum 1)])]"]
    by simp
  have hb: "heap (snd scenario_B) = heap (snd (clone 0 [] (snd scenario_A)))"
    by (simp add: scenario_B_def engine_cloneUniverse_def scenario_A_eval Let_def
        updateAverageOperationTime_def split: prod.splits)
  have "sizes_ok (snd (clone 0 [] (snd scenario_A)))"
    using stateSize_invariant [where w = "snd scenario_A" and this = 0 and ccfg = "[]"] a by simp
  then have b: "sizes_ok (snd scenario_B)"
    by (simp add: sizes_ok_def hb)
  have c: "sizes_ok scenario_C"
    unfolding scenario_C_def
    using stateSize_invariant [where w = "snd scenario_B" and this = "fst scenario_B"
        and upd = "JObj [(''x'', JNum 2)]"] b
    by simp
  have "get_prop (metadata (heap scenario_C 1)) ''stateSize'' = Some (JNum 7)"
    by (simp add: scenario_C_def scenario_B_def scenario_A_def eval_defs
        show_int_def quote_def escape_char_def)
  with a b c show ?thesis by simp
qed

text \<open>
  C6, as stated, fails: a recorded child whose universe has been evicted is still counted.
  A has the single child B, B is evicted, and \<^verbatim>\<open>countDescendants(A)\<close> is 1, not 0.
\<close>

theorem evicted_child_counted_counterexample:
  "children (heap lineage_D 0) = [''uuid-3''] \<and>
   map_of (manager_universes lineage_D) ''uuid-3'' = None \<and>
   countDescendants (stack_limit lineage_D) lineage_D 0 = Some 1"
proof -
  have s: "stack_limit lineage_D = Suc 99" by (simp add: lineage_D_eval)
  have "countDescendants (Suc 99) lineage_D 0 = Some 1"
    by (subst countDescendants.simps) (simp add: lineage_D_eval lineage_B_eval lineage_D_evicted)
  then have "countDescendants (stack_limit lineage_D) lineage_D 0 = Some 1"
    by (simp only: s)
  then show ?thesis
    by (simp add: lineage_D_eval lineage_B_eval lineage_D_evicted)
qed

text \<open>
  C6, amended. \<^verbatim>\<open>countDescendants(U)\<close> is the number of child identifiers recorded in U's
  children list, live or evicted, plus the count of each child that is live: an evicted
  child contributes exactly one and is not traversed further. Where the children lists
  do not lead back and the stack is deep enough, the call returns.
\<close>

theorem countDescendants_counts_recorded_children:
  assumes "acyclic_children rank w" and "rank u < Suc n"
  shows "countDescendants (Suc n) w u =
           Some (length (children (heap w u)) +
                 (\<Sum>c\<leftarrow>children (heap w u).
                    case map_of (manager_universes w) c of
                      None \<Rightarrow> 0
                    | Some d \<Rightarrow> the (countDescendants n w (ud_universe d)))) \<and>
         (\<forall>c\<in>set (children (heap w u)). \<forall>d. map_of (manager_universes w) c = Some d \<longrightarrow>
            countDescendants n w (ud_universe d) \<noteq> None) \<and>
         ((\<forall>c\<in>set (children (heap w u)). map_of (manager_universes w) c = None) \<longrightarrow>
            countDescendants (Suc n) w u = Some (length (children (heap w u))))"
proof -
  have live: "\<forall>c\<in>set (children (heap w u)). \<forall>d. map_of (manager_universes w) c = Some d \<longrightarrow>
          countDescendants n w (ud_universe d) \<noteq> None"
  proof (intro ballI allI impI)
    fix c d
    assume "c \<in> set (children (heap w u))" and "map_of (manager_universes w) c = Some d"
    with assms(1) have "rank (ud_universe d) < rank u"
      by (auto simp: acyclic_children_def)
    with assms(2) have "rank (ud_universe d) < n" by simp
    from countDescendants_terminates [OF assms(1) this]
    show "countDescendants n w (ud_universe d) \<noteq> None" .
  qed
  from fold_count [of "children (heap w u)" "map_of (manager_universes w)" "countDescendants n w", OF this]
  have eq: "countDescendants (Suc n) w u =
           Some (length (children (heap w u)) +
                 (\<Sum>c\<leftarrow>children (heap w u).
                    case map_of (manager_universes w) c of
                      None \<Rightarrow> 0
                    | Some d \<Rightarrow> the (countDescendants n w (ud_universe d))))"
    by simp
  have "(\<Sum>c\<leftarrow>children (heap w u).
           case map_of (manager_universes w) c of
             None \<Rightarrow> 0
           | Some d \<Rightarrow> the (countDescendants n w (ud_universe d))) = 0"
    if "\<forall>c\<in>set (children (heap w u)). map_of (manager_universes w) c = None"
    using that by (simp add: sum_list_eq_0_iff)
  with eq live show ?thesis by simp
qed

theorem countDescendants_counts_recorded_children_witness:
  "acyclic_children (\<lambda>r. 1 - r) lineage_D \<and>
   countDescendants (Suc (Suc 0)) lineage_D 0 = Some 1"
proof -
  have a: "acyclic_children (\<lambda>r. 1 - r) lineage_D"
    by (simp add: acyclic_children_def lineage_D_eval lineage_B_children lineage_D_evicted)
  have r: "(\<lambda>r. 1 - r) (0::nat) < Suc (Suc 0)" by simp
  from countDescendants_counts_recorded_children [OF a r] a show ?thesis
    by (simp add: lineage_D_eval lineage_B_children lineage_D_evicted)
qed

text \<open>
  C9. \<^verbatim>\<open>checkIntegrity\<close> reports healthy exactly when the list of issues is empty; the
  list is the parent issue, when \<^verbatim>\<open>parentId\<close> is set and is not a key of the map, followed
  by one issue for each recorded child that is not a key of the map. So a universe whose
  parent was evicted and whose children are all live has exactly one issue, parent not
  found.
\<close>

theorem checkIntegrity_reports_dangling:
  "healthy (checkIntegrity u w) = (issues (checkIntegrity u w) = []) \<and>
   issues (checkIntegrity u w) =
     (if truthy (parentId (heap w u)) \<and> manager_get (parentId (heap w u)) w = None
      then [''Parent universe not found''] else [])
     @ map (\<lambda>c. ''Child universe '' @ c @ '' not found'')
         (filter (\<lambda>c. map_of (manager_universes w) c = None) (children (heap w u))) \<and>
   (truthy (parentId (heap w u)) \<and> manager_get (parentId (heap w u)) w = None \<and>
    (\<forall>c \<in> set (children (heap w u)). map_of (manager_universes w) c \<noteq> None)
    \<longrightarrow> checkIntegrity u w = \<lparr>healthy = False, issues = [''Parent universe not found'']\<rparr>)"
proof -
  have "checkIntegrity u w = \<lparr>healthy = False, issues = [''Parent universe not found'']\<rparr>"
    if p: "truthy (parentId (heap w u))" "manager_get (parentId (heap w u)) w = None"
      and c: "\<forall>c \<in> set (children (heap w u)). map_of (manager_universes w) c \<noteq> None"
  proof -
    from c have "filter (\<lambda>c. map_of (manager_universes w) c = None) (children (heap w u)) = []"
      by (simp add: filter_empty_conv)
    with p have i: "issues (checkIntegrity u w) = [''Parent universe not found'']"
      by (simp add: checkIntegrity_issues)
    then have "healthy (checkIntegrity u w) = False"
      by (simp add: checkIntegrity_healthy)
    with i show ?thesis by (cases "checkIntegrity u w") simp
  qed
  then show ?thesis
    using checkIntegrity_issues [of u w] checkIntegrity_healthy [of u w] by blast
qed

theorem checkIntegrity_reports_dangling_witness:
  "parentId (heap lineage_C 1) = JStr ''uuid-1'' \<and>
   map_of (manager_universes lineage_C) ''uuid-1'' = None \<and>
   checkIntegrity 1 lineage_C = \<lparr>healthy = False, issues = [''Parent universe not found'']\<rparr>"
proof -
  have p: "parentId (heap lineage_C 1) = JStr ''uuid-1''"
    and c: "children (heap lineage_C 1) = []"
    using lineage_B_eval(2,3) by (simp_all add: lineage_C_eval)
  have "fst ` set (manager_universes lineage_C) = set [''uuid-3'']"
    using lineage_C_eval(1) by (metis list.set_map)
  then have "''uuid-1'' \<notin> fst ` set (manager_universes lineage_C)"
    by simp
  then have n: "map_of (manager_universes lineage_C) ''uuid-1'' = None"
    by (simp add: map_of_eq_None_iff)
  from checkIntegrity_reports_dangling [of 1 lineage_C] p c n show ?thesis by simp
qed

text \<open>
  C5. A merge of the sources \<^verbatim>\<open>[a, b]\<close> into a target succeeds, whatever the strategy
  named, and leaves the target with, for every key, the value of \<open>b\<close> where \<open>b\<close> has the
  key, else the value of \<open>a\<close> where \<open>a\<close> has it, else the target's own value: the later
  source wins, and the target's state is merged in first.
\<close>

theorem merge_replace_later_source_wins:
  assumes "get_prop params ''sourceIds'' = Some (JArr [JStr a, JStr b])"
    and "map_of (manager_universes w) a = Some da"
    and "map_of (manager_universes w) b = Some db"
    and "distinct (map fst (state (heap w t)))"
    and "distinct (map fst (state (heap w (ud_universe da))))"
    and "distinct (map fst (state (heap w (ud_universe db))))"
  shows "(\<exists>r. fst (mergeUniverse t params w) = Inr r) \<and>
         (\<forall>k. get_prop (state (heap (snd (mergeUniverse t params w)) t)) k =
            (case get_prop (state (heap w (ud_universe db))) k of
               Some v \<Rightarrow> Some v
             | None \<Rightarrow> (case get_prop (state (heap w (ud_universe da))) k of
                          Some v \<Rightarrow> Some v
                        | None \<Rightarrow> get_prop (state (heap w t)) k)))"
proof -
  let ?ms = "mergedState t [ud_universe da, ud_universe db] w"
  from assms(2,3) have l: "lookup_sources [JStr a, JStr b] w = Inr [ud_universe da, ud_universe db]"
    by simp
  obtain res w1 where u: "updateState t (JObj ?ms) w = (res, w1)"
    by (cases "updateState t (JObj ?ms) w")
  from assms(1) l u have m: "mergeUniverse t params w =
      (Inr (MergeResult res (JArr [JStr a, JStr b])
              (case get_prop params ''mergeStrategy'' of None \<Rightarrow> JStr ''replace'' | Some v \<Rightarrow> v)
              [(''type'', JStr ''merge''),
               (''targetId'', JStr (uid (heap w1 t))),
               (''sourceIds'', JArr [JStr a, JStr b]),
               (''mergeStrategy'',
                 (case get_prop params ''mergeStrategy'' of None \<Rightarrow> JStr ''replace'' | Some v \<Rightarrow> v)),
               (''operation'', JStr ''merge_universes'')]), w1)"
    by (simp add: mergeUniverse_def Let_def)
  have dms: "distinct (map fst ?ms)"
    unfolding mergedState_def by (simp add: distinct_spread)
  from u have "state (heap w1 t) = spread (spread [] (state (heap w t))) ?ms"
    using updateState_result(2) [of t "JObj ?ms" w] by simp
  also have "\<dots> = spread (state (heap w t)) ?ms"
    using assms(4) by (simp add: spread_empty_distinct)
  finally have st: "state (heap w1 t) = spread (state (heap w t)) ?ms" .
  have "get_prop (state (heap w1 t)) k =
      (case get_prop (state (heap w (ud_universe db))) k of
         Some v \<Rightarrow> Some v
       | None \<Rightarrow> (case get_prop (state (heap w (ud_universe da))) k of
                    Some v \<Rightarrow> Some v
                  | None \<Rightarrow> get_prop (state (heap w t)) k))" for k
    unfolding st
    by (simp add: get_prop_spread [OF dms] mergedState_two [OF assms(4,5,6)] split: option.splits)
  with m show ?thesis by simp
qed

theorem merge_replace_later_source_wins_witness:
  "get_prop (state (heap (snd (mergeUniverse 0
      [(''sourceIds'', JArr [JStr ''uuid-3'', JStr ''uuid-5'']), (''mergeStrategy'', JStr ''replace'')]
      merge_world)) 0)) ''x'' = Some (JNum 3) \<and>
   get_prop (state (heap (snd (mergeUniverse 0
      [(''sourceIds'', JArr [JStr ''uuid-3'', JStr ''uuid-5'']), (''mergeStrategy'', JStr ''replace'')]
      merge_world)) 0)) ''y'' = Some (JNum 2) \<and>
   get_prop (state (heap (snd (mergeUniverse 0
      [(''sourceIds'', JArr [JStr ''uuid-3'', JStr ''uuid-5'']), (''mergeStrategy'', JStr ''replace'')]
      merge_world)) 0)) ''z'' = Some (JNum 1)"
proof -
  let ?params = "[(''sourceIds'', JArr [JStr ''uuid-3'', JStr ''uuid-5'']),
                  (''mergeStrategy'', JStr ''replace'')]"
  have p: "get_prop ?params ''sourceIds'' = Some (JArr [JStr ''uuid-3'', JStr ''uuid-5''])"
    by (simp add: get_prop_def)
  obtain da where a: "map_of (manager_universes merge_world) ''uuid-3'' = Some da"
    and ra: "ud_universe da = 1"
    using map_of_proj [OF merge_world_eval(1), of "''uuid-3''" 1] by auto
  obtain db where b: "map_of (manager_universes merge_world) ''uuid-5'' = Some db"
    and rb: "ud_universe db = 2"
    using map_of_proj [OF merge_world_eval(1), of "''uuid-5''" 2] by auto
  have d: "distinct (map fst (state (heap merge_world 0)))"
    "distinct (map fst (state (heap merge_world (ud_universe da))))"
    "distinct (map fst (state (heap merge_world (ud_universe db))))"
    using merge_world_eval(2,3,4) by (simp_all add: ra rb)
  from merge_replace_later_source_wins [OF p a b d] show ?thesis
    using merge_world_eval(2,3,4) by (simp add: ra rb get_prop_def)
qed

text \<open>
  C8. \<^verbatim>\<open>createUniverses(count, config)\<close> throws when \<open>count \<le> 0\<close> or \<open>count > 10000\<close>, and has
  then only drawn the batch identifier: no universe is created and both maps are as they
  were. For every other count, with a positive chunk size configured, it returns: the
  result has exactly \<open>count\<close> universes, pairwise different, the \<open>k\<close>-th with
  \<^verbatim>\<open>creationIndex\<close> \<open>k\<close> and the batch identifier in its metadata, found in the engine's map
  and registered in the manager's map under the batch identifier.
\<close>

theorem createUniverses_contract:
  "(count \<le> 0 \<or> count > 10000 \<longrightarrow>
      createUniverses count cfg w =
        Some (Inl (Error ''Universe count must be between 1 and 10000''),
              w\<lparr>uuid_count := Suc (uuid_count w)\<rparr>)) \<and>
   (0 < count \<and> count \<le> 10000 \<and> 0 < batchSize (config w) \<longrightarrow>
      (\<exists>us w'. createUniverses count cfg w = Some (Inr us, w') \<and>
         length us = nat count \<and> distinct us \<and>
         (\<forall>k<nat count.
            get_prop (metadata (heap w' (us ! k))) ''creationIndex'' = Some (JNum (int k)) \<and>
            get_prop (metadata (heap w' (us ! k))) ''batchId'' = Some (JStr (uuid_text (uuid_count w))) \<and>
            engine_getUniverse (uid (heap w' (us ! k))) w' = Some (us ! k) \<and>
            (\<exists>d. map_of (manager_universes w') (uid (heap w' (us ! k))) = Some d \<and>
                 ud_universe d = us ! k \<and>
                 ud_batchId d = Some (uuid_text (uuid_count w))))))"
proof (intro conjI impI)
  assume "count \<le> 0 \<or> count > 10000"
  then show "createUniverses count cfg w =
        Some (Inl (Error ''Universe count must be between 1 and 10000''),
              w\<lparr>uuid_count := Suc (uuid_count w)\<rparr>)"
    by (auto simp: createUniverses_def uuidv4_def)
next
  assume a: "0 < count \<and> count \<le> 10000 \<and> 0 < batchSize (config w)"
  let ?b = "uuid_text (uuid_count w)"
  let ?w0 = "w\<lparr>uuid_count := Suc (uuid_count w)\<rparr>"
  let ?bsz = "min (batchSize (config ?w0)) count"
  from a have bsz: "0 < ?bsz" by simp
  have c0: "created_upto ?b ?w0 (nat (min 0 count)) ?w0"
    and r0: "registered_upto ?b ?w0 (nat (min 0 count)) ?w0"
    and u0: "[] = map (\<lambda>k. next_ref ?w0 + k) [0..<nat (min 0 count)]"
    using a by (simp_all add: created_upto_def registered_upto_def)
  from a have cnt: "0 \<le> count" by simp
  from outer_post [OF bsz order_refl cnt c0 r0 u0, of cfg]
  obtain us w1 where o: "createUniverses_outer cfg ?b count ?bsz 0 [] ?w0 = Some (us, w1)"
    and c: "created_upto ?b ?w0 (nat count) w1"
    and r: "registered_upto ?b ?w0 (nat count) w1"
    and us: "us = map (\<lambda>k. next_ref ?w0 + k) [0..<nat count]" by blast
  let ?w' = "w1\<lparr>statistics := (statistics w1)
                 \<lparr>totalCreated := totalCreated (statistics w1) + count,
                  peakConcurrentUniverses :=
                    max (peakConcurrentUniverses (statistics w1))
                        (int (length (manager_universes w1)))\<rparr>\<rparr>"
  from a o have res: "createUniverses count cfg w = Some (Inr us, ?w')"
    by (simp add: createUniverses_def uuidv4_def)
  have len: "length us = nat count" and dist: "distinct us"
    by (simp_all add: us distinct_map inj_on_def)
  have "get_prop (metadata (heap ?w' (us ! k))) ''creationIndex'' = Some (JNum (int k)) \<and>
        get_prop (metadata (heap ?w' (us ! k))) ''batchId'' = Some (JStr ?b) \<and>
        engine_getUniverse (uid (heap ?w' (us ! k))) ?w' = Some (us ! k) \<and>
        (\<exists>d. map_of (manager_universes ?w') (uid (heap ?w' (us ! k))) = Some d \<and>
             ud_universe d = us ! k \<and> ud_batchId d = Some ?b)" if k: "k < nat count" for k
  proof -
    from k have uk: "us ! k = next_ref ?w0 + k" by (simp add: us)
    from c k have
      "uid (heap w1 (next_ref ?w0 + k)) = uuid_text (uuid_count ?w0 + k)"
      "get_prop (metadata (heap w1 (next_ref ?w0 + k))) ''creationIndex'' = Some (JNum (int k))"
      "get_prop (metadata (heap w1 (next_ref ?w0 + k))) ''batchId'' = Some (JStr ?b)"
      "map_of (engine_universes w1) (uuid_text (uuid_count ?w0 + k)) = Some (next_ref ?w0 + k)"
      unfolding created_upto_def by blast+
    moreover from r k have
      "\<exists>d. map_of (manager_universes w1) (uuid_text (uuid_count ?w0 + k)) = Some d \<and>
           ud_universe d = next_ref ?w0 + k \<and> ud_batchId d = Some ?b"
      unfolding registered_upto_def by blast
    ultimately show ?thesis
      by (simp add: uk engine_getUniverse_def)
  qed
  with res len dist
  show "\<exists>us w'. createUniverses count cfg w = Some (Inr us, w') \<and>
         length us = nat count \<and> distinct us \<and>
         (\<forall>k<nat count.
            get_prop (metadata (heap w' (us ! k))) ''creationIndex'' = Some (JNum (int k)) \<and>
            get_prop (metadata (heap w' (us ! k))) ''batchId'' = Some (JStr ?b) \<and>
            engine_getUniverse (uid (heap w' (us ! k))) w' = Some (us ! k) \<and>
            (\<exists>d. map_of (manager_universes w') (uid (heap w' (us ! k))) = Some d \<and>
                 ud_universe d = us ! k \<and> ud_batchId d = Some ?b))"
    by blast
qed

theorem createUniverses_contract_witness:
  "createUniverses 0 [] (new_world None 100) =
     Some (Inl (Error ''Universe count must be between 1 and 10000''),
           (new_world None 100)\<lparr>uuid_count := Suc 0\<rparr>) \<and>
   createUniverses (- 1) [] (new_world None 100) =
     Some (Inl (Error ''Universe count must be between 1 and 10000''),
           (new_world None 100)\<lparr>uuid_count := Suc 0\<rparr>) \<and>
   createUniverses 10001 [] (new_world None 100) =
     Some (Inl (Error ''Universe count must be between 1 and 10000''),
           (new_world None 100)\<lparr>uuid_count := Suc 0\<rparr>) \<and>
   (\<exists>us w'. createUniverses 3 [] (new_world None 100) = Some (Inr us, w') \<and>
      length us = 3 \<and>
      map (\<lambda>u. get_prop (metadata (heap w' u)) ''creationIndex'') us =
        [Some (JNum 0), Some (JNum 1), Some (JNum 2)])"
proof -
  have u: "uuid_count (new_world None 100) = 0" and b: "batchSize (config (new_world None 100)) = 50"
    by (simp_all add: new_world_def)
  from createUniverses_contract [of 3 "[]" "new_world None 100"] b
  obtain us w' where r: "createUniverses 3 [] (new_world None 100) = Some (Inr us, w')"
    and l: "length us = 3"
    and i: "\<And>k. k < 3 \<Longrightarrow> get_prop (metadata (heap w' (us ! k))) ''creationIndex'' = Some (JNum (int k))"
    by auto
  from l obtain a b c where us: "us = [a, b, c]"
    by (auto simp: length_Suc_conv numeral_3_eq_3)
  from i [of 0] i [of 1] i [of 2] have
    "map (\<lambda>u. get_prop (metadata (heap w' u)) ''creationIndex'') us =
        [Some (JNum 0), Some (JNum 1), Some (JNum 2)]"
    by (simp add: us)
  with r l show ?thesis
    using createUniverses_contract [of 0 "[]" "new_world None 100"]
      createUniverses_contract [of "- 1" "[]" "new_world None 100"]
      createUniverses_contract [of 10001 "[]" "new_world None 100"]
    by (simp add: u)
qed

text \<open>
  C7. \<^verbatim>\<open>processBatchOperation\<close> never throws and its results have one element for each
  request, in the order of the requests. The element of a request is the failure
  \<^verbatim>\<open>{error, index}\<close>, with the index of the request, exactly when the request's own
  operation threw, and is the completed outcome of that operation otherwise, whatever
  the other requests did. A request for a universe that does not exist fails with the
  not-found message at its index; a snapshot, clone or branch of a universe that exists
  completes. The witness is a batch of five requests whose third names an unknown
  universe: the results are four completed operations and one failure at index 2.
\<close>

theorem batch_failures_are_per_item:
  "length (br_results (fst (processBatchOperation ops w))) = length ops \<and>
   (\<forall>i<length ops.
      (case fst (start_of (ops ! i) (batch_state_before ops i w)) of
         Inl (Error message) \<Rightarrow>
           br_results (fst (processBatchOperation ops w)) ! i = Failed message i
       | Inr started \<Rightarrow>
           (\<exists>outcome. br_results (fst (processBatchOperation ops w)) ! i = Completed outcome \<and>
              out_operationId outcome = fst started \<and> out_result outcome = snd started)) \<and>
      (bo_universeId (ops ! i) \<notin> fst ` set (manager_universes w) \<and>
       (\<forall>n\<ge>uuid_count w. bo_universeId (ops ! i) \<noteq> uuid_text n) \<longrightarrow>
         br_results (fst (processBatchOperation ops w)) ! i =
           Failed (''Universe '' @ bo_universeId (ops ! i) @ '' not found'') i) \<and>
      (bo_universeId (ops ! i) \<in> fst ` set (manager_universes w) \<and>
       bo_operation (ops ! i) \<in> {''snapshot'', ''clone'', ''branch''} \<longrightarrow>
         (\<exists>outcome. br_results (fst (processBatchOperation ops w)) ! i = Completed outcome)))"
proof -
  let ?w0 = "snd (uuidv4 w)"
  let ?started = "fst (start_all ops ?w0)"
  let ?w1 = "snd (start_all ops ?w0)"
  let ?results = "br_results (fst (processBatchOperation ops w))"
  have res: "?results = fst (finish_all 0 (zip ops ?started) ?w1)"
    by (simp add: processBatchOperation_def split_def Let_def)
  have len: "length ?results = length ops"
    by (simp add: res finish_all_length start_all_length)
  have g0: "keys_grow w ?w0" by (simp add: keys_grow_def uuidv4_def)
  have main: "
      (case fst (start_of (ops ! i) (batch_state_before ops i w)) of
         Inl (Error message) \<Rightarrow> ?results ! i = Failed message i
       | Inr started \<Rightarrow>
           (\<exists>outcome. ?results ! i = Completed outcome \<and>
              out_operationId outcome = fst started \<and> out_result outcome = snd started)) \<and>
      (bo_universeId (ops ! i) \<notin> fst ` set (manager_universes w) \<and>
       (\<forall>n\<ge>uuid_count w. bo_universeId (ops ! i) \<noteq> uuid_text n) \<longrightarrow>
         ?results ! i = Failed (''Universe '' @ bo_universeId (ops ! i) @ '' not found'') i) \<and>
      (bo_universeId (ops ! i) \<in> fst ` set (manager_universes w) \<and>
       bo_operation (ops ! i) \<in> {''snapshot'', ''clone'', ''branch''} \<longrightarrow>
         (\<exists>outcome. ?results ! i = Completed outcome))" if i: "i < length ops" for i
  proof -
    let ?wi = "batch_state_before ops i w"
    from i have zi: "i < length (zip ops ?started)" by (simp add: start_all_length)
    from i have sn: "snd (zip ops ?started ! i) = fst (start_of (ops ! i) ?wi)"
      by (simp add: start_all_length start_all_nth batch_state_before_def)
    from finish_all_nth [OF zi, of 0 ?w1]
    have c1: "(case fst (start_of (ops ! i) ?wi) of
         Inl (Error message) \<Rightarrow> ?results ! i = Failed message i
       | Inr started \<Rightarrow>
           (\<exists>outcome. ?results ! i = Completed outcome \<and>
              out_operationId outcome = fst started \<and> out_result outcome = snd started))"
      by (auto simp: sn res split: sum.splits error.splits)
    have gi: "keys_grow w ?wi"
      unfolding batch_state_before_def using g0 start_all_keys by (rule keys_grow_trans)
    have c2: "?results ! i = Failed (''Universe '' @ bo_universeId (ops ! i) @ '' not found'') i"
      if nf: "bo_universeId (ops ! i) \<notin> fst ` set (manager_universes w)"
        and nu: "\<forall>n\<ge>uuid_count w. bo_universeId (ops ! i) \<noteq> uuid_text n"
    proof -
      from gi nf nu have "bo_universeId (ops ! i) \<notin> fst ` set (manager_universes ?wi)"
        unfolding keys_grow_def by blast
      then have "map_of (manager_universes ?wi) (bo_universeId (ops ! i)) = None"
        by (simp add: map_of_eq_None_iff)
      from start_of_not_found [OF this] c1 show ?thesis by simp
    qed
    have c3: "\<exists>outcome. ?results ! i = Completed outcome"
      if ex: "bo_universeId (ops ! i) \<in> fst ` set (manager_universes w)"
        and op: "bo_operation (ops ! i) \<in> {''snapshot'', ''clone'', ''branch''}"
    proof -
      from gi ex have "bo_universeId (ops ! i) \<in> fst ` set (manager_universes ?wi)"
        unfolding keys_grow_def by blast
      then have "map_of (manager_universes ?wi) (bo_universeId (ops ! i)) \<noteq> None"
        by (simp add: map_of_eq_None_iff)
      from start_of_always_succeeds [OF this op] c1 show ?thesis by auto
    qed
    from c1 c2 c3 show ?thesis by blast
  qed
  from len main show ?thesis by blast
qed

theorem batch_failures_are_per_item_witness:
  "length five_operations = 5 \<and>
   bo_universeId (five_operations ! 2) \<notin> fst ` set (manager_universes lineage_A) \<and>
   br_results (fst (processBatchOperation five_operations lineage_A)) ! 2 =
     Failed ''Universe no-such-universe not found'' 2 \<and>
   map item_summary (br_results (fst (processBatchOperation five_operations lineage_A))) =
     [(''snapshot'', None), (''update'', None),
      (''Universe no-such-universe not found'', Some 2), (''branch'', None), (''merge'', None)]"
proof -
  have l: "length five_operations = 5" and i: "2 < length five_operations"
    and u: "bo_universeId (five_operations ! 2) = ''no-such-universe''"
    by (simp_all add: five_operations_def)
  have k: "bo_universeId (five_operations ! 2) \<notin> fst ` set (manager_universes lineage_A)"
    by (simp add: u lineage_A_eval)
  have f: "\<forall>n\<ge>uuid_count lineage_A. bo_universeId (five_operations ! 2) \<noteq> uuid_text n"
    by (simp add: u uuid_text_def)
  from batch_failures_are_per_item [of five_operations lineage_A] i k f
  have "br_results (fst (processBatchOperation five_operations lineage_A)) ! 2 =
     Failed ''Universe no-such-universe not found'' 2"
    by (simp add: u)
  with l k five_operations_eval show ?thesis by simp
qed

end
